theory Spec2Isabelle
  imports Complex_Main "HOL-Library.Sublist"
begin

section \<open>Python values used throughout\<close>

text \<open>
  The token endpoint's JSON, typed as \<^verbatim>\<open>OAuthToken.from_dict\<close> reads it: a key that is
  absent is \<open>None\<close>. \<open>token_dict\<close> is the \<^verbatim>\<open>body\<close> dictionary (and the stored token file),
  \<open>token_envelope\<close> the \<^verbatim>\<open>{status, error, body}\<close> object around it.
\<close>

record token_dict =
  d_access_token :: "string option"
  d_refresh_token :: "string option"
  d_token_type :: "string option"
  d_expires_in :: "int option"
  d_token_expiry :: "int option"
  d_userid :: "int option"
  d_scope :: "string option"

record token_envelope =
  e_status :: "int option"
  e_error :: "string option"
  e_body :: "token_dict option"

text \<open>
  Exceptions are values. The three API error classes of \<^verbatim>\<open>api_client.py\<close> form one
  hierarchy (\<^verbatim>\<open>WithingsAuthError\<close> and \<^verbatim>\<open>WithingsRateLimitError\<close> derive from
  \<^verbatim>\<open>WithingsAPIError\<close>); \<^verbatim>\<open>WithingsOAuthError\<close> of \<^verbatim>\<open>oauth_client.py\<close> derives from
  \<^verbatim>\<open>Exception\<close> directly and carries \<^verbatim>\<open>status_code\<close>, \<^verbatim>\<open>message\<close> and the optional
  \<^verbatim>\<open>response\<close> dictionary. The remaining constructors are the built-in and
  \<^verbatim>\<open>requests\<close> exceptions the modelled code can raise.
\<close>

datatype exn =
    WithingsAPIError int string
  | WithingsAuthError int string
  | WithingsRateLimitError int
  | WithingsOAuthError int string "token_envelope option"
  | HTTPError int
  | ConnectionError string
  | JSONDecodeError
  | KeyError string
  | ValueError string

text \<open>\<^verbatim>\<open>isinstance(e, WithingsAPIError)\<close>, as an \<^verbatim>\<open>except WithingsAPIError\<close> clause tests it.\<close>

fun is_WithingsAPIError :: "exn \<Rightarrow> bool" where
  "is_WithingsAPIError (WithingsAPIError _ _) = True"
| "is_WithingsAPIError (WithingsAuthError _ _) = True"
| "is_WithingsAPIError (WithingsRateLimitError _) = True"
| "is_WithingsAPIError _ = False"

text \<open>Decimal rendering of integers, as an f-string does it.\<close>

definition digit_char :: "nat \<Rightarrow> char" where
  "digit_char d = ''0123456789'' ! d"

fun str_nat :: "nat \<Rightarrow> string" where
  "str_nat n = (if n < 10 then [digit_char n] else str_nat (n div 10) @ [digit_char (n mod 10)])"

definition str_int :: "int \<Rightarrow> string" where
  "str_int i = (if i < 0 then CHR ''-'' # str_nat (nat (- i)) else str_nat (nat i))"

text \<open>\<^verbatim>\<open>str.upper()\<close> on ASCII text.\<close>

definition upper_char :: "char \<Rightarrow> char" where
  "upper_char c =
     (case map_of (zip ''abcdefghijklmnopqrstuvwxyz'' ''ABCDEFGHIJKLMNOPQRSTUVWXYZ'') c of
        None \<Rightarrow> c
      | Some u \<Rightarrow> u)"

definition upper :: "string \<Rightarrow> string" where
  "upper s = map upper_char s"

section \<open>api\_client.py: the request layer\<close>

text \<open>
  What one HTTP round trip gives \<^verbatim>\<open>_make_request\<close>: either \<^verbatim>\<open>requests\<close> raises a
  \<^verbatim>\<open>RequestException\<close> (connection failure, timeout, \<^verbatim>\<open>raise_for_status\<close>, undecodable
  JSON), or the decoded envelope, of which the code reads the entries \<^verbatim>\<open>status\<close> (an
  integer when present) and \<^verbatim>\<open>body\<close> (a dictionary when present).
\<close>

datatype 'v http_reply =
    RequestException string
  | Envelope "int option" "(string \<times> 'v) list option"

text \<open>The client's view of the network: requests issued so far and the sleeps taken.\<close>

record net =
  requests_made :: nat
  sleeps :: "int list"

definition STATUS_MESSAGES :: "(int \<times> string) list" where
  "STATUS_MESSAGES =
    [(0, ''Success''),
     (100, ''The hash is missing, invalid, or does not match the provided email''),
     (247, ''User is deactivated''),
     (286, ''No such subscription was found''),
     (293, ''The callback URL is either absent or incorrect''),
     (294, ''No such subscription could be deleted''),
     (304, ''The comment is either absent or incorrect''),
     (305, ''Too many notifications are already set''),
     (328, ''User is unauthorized''),
     (342, ''Signature is wrong''),
     (343, ''Wrong Notification Callback Url''),
     (601, ''Too Many Requests''),
     (2554, ''Unknown action''),
     (2555, ''An unknown error occurred'')]"

definition status_message :: "int \<Rightarrow> string \<Rightarrow> string" where
  "status_message status dflt = (case map_of STATUS_MESSAGES status of None \<Rightarrow> dflt | Some m \<Rightarrow> m)"

text \<open>
  \<^verbatim>\<open>WithingsAPIClient._make_request\<close>. The \<open>n\<close>-th HTTP request of the session is answered
  by \<open>srv n\<close>; \<^verbatim>\<open>time.sleep\<close> appends to \<open>sleeps\<close>. The result is the raised exception or
  the unwrapped body.
\<close>

function make_request ::
  "(nat \<Rightarrow> 'v http_reply) \<Rightarrow> string \<Rightarrow> nat \<Rightarrow> net \<Rightarrow> (exn + (string \<times> 'v) list) \<times> net"
where
  "make_request srv method retry_count w =
    (if upper method \<noteq> ''GET'' \<and> upper method \<noteq> ''POST''
     then (Inl (ValueError (''Unsupported HTTP method: '' @ method)), w)
     else
       (case srv (requests_made w) of
          RequestException msg \<Rightarrow>
            (Inl (WithingsAPIError (- 1) (''HTTP request failed: '' @ msg)),
             w\<lparr>requests_made := requests_made w + 1\<rparr>)
        | Envelope st body \<Rightarrow>
            (let status = (case st of None \<Rightarrow> - 1 | Some s \<Rightarrow> s);
                 w1 = w\<lparr>requests_made := requests_made w + 1\<rparr>
             in if status = 0 then (Inr (case body of None \<Rightarrow> [] | Some b \<Rightarrow> b), w1)
                else if status = 401 \<or> status = 328 \<or> status = 2554
                then (Inl (WithingsAuthError status (status_message status ''Authentication failed'')), w1)
                else if status = 601
                then (if retry_count < 3
                      then make_request srv method (retry_count + 1)
                             (w1\<lparr>sleeps := sleeps w1 @ [min (60 * 2 ^ retry_count) 300]\<rparr>)
                      else (Inl (WithingsRateLimitError 60), w1))
                else (Inl (WithingsAPIError status
                        (status_message status (''Unknown error (status '' @ str_int status @ '')''))), w1))))"
  by pat_completeness auto
termination
  by (relation "measure (\<lambda>(srv, method, retry_count, w). 3 - retry_count)") auto

declare make_request.simps [simp del]

section \<open>oauth\_client.py: the token and its refresh\<close>

text \<open>
  Clock readings \<^verbatim>\<open>time.time()\<close> are real numbers of seconds; \<^verbatim>\<open>int(x)\<close> truncates
  towards zero.
\<close>

definition py_int :: "real \<Rightarrow> int" where
  "py_int x = (if 0 \<le> x then \<lfloor>x\<rfloor> else \<lceil>x\<rceil>)"

record OAuthToken =
  access_token :: string
  refresh_token :: string
  token_type :: string
  expires_in :: int
  token_expiry :: int
  userid :: "int option"
  scope :: "string option"

text \<open>\<^verbatim>\<open>OAuthToken.from_dict\<close>; \<open>now\<close> is the clock reading of the default expression.\<close>

definition from_dict :: "token_dict \<Rightarrow> real \<Rightarrow> exn + OAuthToken" where
  "from_dict data now =
     (case d_access_token data of
        None \<Rightarrow> Inl (KeyError ''access_token'')
      | Some acc_tok \<Rightarrow>
          (case d_refresh_token data of
             None \<Rightarrow> Inl (KeyError ''refresh_token'')
           | Some ref_tok \<Rightarrow>
               Inr \<lparr>access_token = acc_tok,
                    refresh_token = ref_tok,
                    token_type = (case d_token_type data of None \<Rightarrow> ''Bearer'' | Some t \<Rightarrow> t),
                    expires_in = (case d_expires_in data of None \<Rightarrow> 10800 | Some e \<Rightarrow> e),
                    token_expiry =
                      (case d_token_expiry data of
                         None \<Rightarrow> py_int (now + of_int (case d_expires_in data of None \<Rightarrow> 10800 | Some e \<Rightarrow> e))
                       | Some x \<Rightarrow> x),
                    userid = d_userid data,
                    scope = d_scope data\<rparr>))"

text \<open>\<^verbatim>\<open>OAuthToken.is_expired(buffer_seconds)\<close> at clock reading \<open>now\<close>; the default buffer is 300.\<close>

definition is_expired :: "OAuthToken \<Rightarrow> int \<Rightarrow> real \<Rightarrow> bool" where
  "is_expired tok buffer_seconds now \<longleftrightarrow> py_int now \<ge> token_expiry tok - buffer_seconds"

text \<open>\<^verbatim>\<open>str(WithingsOAuthError(status_code, message))\<close>.\<close>

definition oauth_error_str :: "int \<Rightarrow> string \<Rightarrow> string" where
  "oauth_error_str status_code message = ''OAuth Error '' @ str_int status_code @ '': '' @ message"

text \<open>
  The HTTP response of \<^verbatim>\<open>requests.post\<close>: its status code and what \<^verbatim>\<open>response.json()\<close>
  decodes, \<open>None\<close> when the body is not JSON. \<^verbatim>\<open>requests.post\<close> itself may fail.
\<close>

record http_response =
  status_code :: int
  json :: "token_envelope option"

datatype post_outcome = PostFailed string | Response http_response

definition raise_for_status :: "http_response \<Rightarrow> exn option" where
  "raise_for_status r = (if 400 \<le> status_code r \<and> status_code r < 600 then Some (HTTPError (status_code r)) else None)"

definition response_json :: "http_response \<Rightarrow> exn + token_envelope" where
  "response_json r = (case json r of None \<Rightarrow> Inl JSONDecodeError | Some v \<Rightarrow> Inr v)"

text \<open>
  The client: its configuration, the held token, and the token file (content and
  permission bits) that \<^verbatim>\<open>_save_token\<close> writes.
\<close>

record oauth_client =
  client_id :: string
  client_secret :: string
  callback_uri :: string
  auto_refresh :: bool
  token :: "OAuthToken option"
  token_file :: "(OAuthToken \<times> nat) option"

definition save_token :: "oauth_client \<Rightarrow> oauth_client" where
  "save_token c = (case token c of None \<Rightarrow> c | Some t \<Rightarrow> c\<lparr>token_file := Some (t, 384)\<rparr>)"

text \<open>\<^verbatim>\<open>WithingsOAuthClient.exchange_code_for_token\<close>, given the outcome of its POST.\<close>

definition exchange_code_for_token ::
  "oauth_client \<Rightarrow> string \<Rightarrow> post_outcome \<Rightarrow> real \<Rightarrow> (exn + OAuthToken) \<times> oauth_client"
where
  "exchange_code_for_token c authorization_code outcome now =
     (case outcome of
        PostFailed msg \<Rightarrow> (Inl (ConnectionError msg), c)
      | Response response \<Rightarrow>
          (case raise_for_status response of
             Some e \<Rightarrow> (Inl e, c)
           | None \<Rightarrow>
               (case response_json response of
                  Inl e \<Rightarrow>
                    (if e = JSONDecodeError
                     then (Inl (WithingsOAuthError (status_code response)
                                  ''Non-JSON response from token endpoint'' None), c)
                     else (Inl e, c))
                | Inr result \<Rightarrow>
                    (if e_status result \<noteq> Some 0
                     then (Inl (WithingsOAuthError
                                  (case e_status result of None \<Rightarrow> - 1 | Some s \<Rightarrow> s)
                                  (case e_error result of None \<Rightarrow> ''Unknown error'' | Some m \<Rightarrow> m)
                                  (Some result)), c)
                     else
                       (case e_body result of
                          None \<Rightarrow> (Inl (KeyError ''body''), c)
                        | Some body \<Rightarrow>
                            (let body' = body\<lparr>d_token_expiry :=
                                   Some (py_int now + (case d_expires_in body of None \<Rightarrow> 10800 | Some e \<Rightarrow> e))\<rparr>
                             in case from_dict body' now of
                                  Inl e \<Rightarrow> (Inl e, c)
                                | Inr tok \<Rightarrow> (Inr tok, save_token (c\<lparr>token := Some tok\<rparr>))))))))"

text \<open>
  \<^verbatim>\<open>WithingsOAuthClient.refresh_access_token\<close>. \<^verbatim>\<open>not self.token.userid\<close> holds of
  \<open>None\<close> and of \<open>0\<close>.
\<close>

definition refresh_access_token ::
  "oauth_client \<Rightarrow> post_outcome \<Rightarrow> real \<Rightarrow> (exn + OAuthToken) \<times> oauth_client"
where
  "refresh_access_token c outcome now =
     (case token c of
        None \<Rightarrow> (Inl (WithingsOAuthError 0 ''No refresh token available'' None), c)
      | Some held \<Rightarrow>
          (if refresh_token held = []
           then (Inl (WithingsOAuthError 0 ''No refresh token available'' None), c)
           else
             (case outcome of
                PostFailed msg \<Rightarrow> (Inl (ConnectionError msg), c)
              | Response response \<Rightarrow>
                  (case raise_for_status response of
                     Some e \<Rightarrow> (Inl e, c)
                   | None \<Rightarrow>
                       (case response_json response of
                          Inl e \<Rightarrow>
                            (if e = JSONDecodeError
                             then (Inl (WithingsOAuthError (status_code response)
                                          ''Non-JSON response from token endpoint'' None), c)
                             else (Inl e, c))
                        | Inr result \<Rightarrow>
                            (if e_status result \<noteq> Some 0
                             then (Inl (WithingsOAuthError
                                          (case e_status result of None \<Rightarrow> - 1 | Some s \<Rightarrow> s)
                                          (case e_error result of None \<Rightarrow> ''Token refresh failed'' | Some m \<Rightarrow> m)
                                          (Some result)), c)
                             else
                               (case e_body result of
                                  None \<Rightarrow> (Inl (KeyError ''body''), c)
                                | Some body \<Rightarrow>
                                    (let body' = body\<lparr>d_token_expiry :=
                                           Some (py_int now + (case d_expires_in body of None \<Rightarrow> 10800 | Some e \<Rightarrow> e))\<rparr>;
                                         old_userid = userid held
                                     in case from_dict body' now of
                                          Inl e \<Rightarrow> (Inl e, c)
                                        | Inr tok \<Rightarrow>
                                            (let tok' = (if userid tok = None \<or> userid tok = Some 0
                                                         then tok\<lparr>userid := old_userid\<rparr> else tok)
                                             in (Inr tok', save_token (c\<lparr>token := Some tok'\<rparr>)))))))))))"

section \<open>storage.py: the persistence port\<close>

text \<open>
  A naive \<^verbatim>\<open>datetime\<close> is its number of microseconds since the epoch of the calendar, a
  \<^verbatim>\<open>date\<close> its day number; \<^verbatim>\<open>timedelta(days=n)\<close> is \<open>timedelta_days n\<close>.
\<close>

type_synonym datetime = int
type_synonym date = int

definition timedelta_days :: "int \<Rightarrow> int" where
  "timedelta_days n = n * 86400000000"

text \<open>\<^verbatim>\<open>datetime.combine(d, datetime.min.time())\<close>.\<close>

definition combine_midnight :: "date \<Rightarrow> datetime" where
  "combine_midnight d = d * 86400000000"

text \<open>The records the fetcher stages; \<open>raw_data\<close> is the dictionary kept with a measurement.\<close>

record raw_data =
  rd_type :: int
  rd_value :: int
  rd_unit :: int
  rd_grpid :: "int option"

record measurement =
  m_timestamp :: datetime
  m_measure_type :: string
  m_value :: real
  m_unit :: string
  m_device_id :: "string option"
  m_raw_data :: raw_data

record heart_rate_sample =
  h_timestamp :: datetime
  h_heart_rate :: real
  h_device_id :: "string option"
  h_raw_data :: raw_data

text \<open>One entry of the vendor's \<^verbatim>\<open>activities\<close> list: \<^verbatim>\<open>date\<close> and its numeric entries.\<close>

record raw_activity =
  ra_date :: "string option"
  ra_fields :: "(string \<times> real) list"

record activity_data =
  ad_date :: date
  ad_steps :: "real option"
  ad_distance :: "real option"
  ad_calories :: "real option"
  ad_elevation :: "real option"
  ad_soft_activity_duration :: "real option"
  ad_moderate_activity_duration :: "real option"
  ad_intense_activity_duration :: "real option"
  ad_active_calories :: "real option"
  ad_total_calories :: "real option"
  ad_raw_data :: raw_activity

text \<open>One entry of the vendor's sleep \<^verbatim>\<open>series\<close>.\<close>

record raw_sleep =
  rs_startdate :: "int option"
  rs_enddate :: "int option"
  rs_data :: "(string \<times> real) list option"

record sleep_data =
  sd_start_time :: datetime
  sd_end_time :: datetime
  sd_duration :: real
  sd_quality :: "real option"
  sd_deep_duration :: "real option"
  sd_light_duration :: "real option"
  sd_rem_duration :: "real option"
  sd_awake_duration :: "real option"
  sd_heart_rate_avg :: "real option"
  sd_heart_rate_min :: "real option"
  sd_heart_rate_max :: "real option"
  sd_respiration_rate_avg :: "real option"
  sd_snoring_duration :: "real option"
  sd_raw_data :: raw_sleep

text \<open>
  A row of table \<^verbatim>\<open>sync_state\<close> (its key \<^verbatim>\<open>data_type\<close> is the key of the map below;
  \<^verbatim>\<open>updated_at\<close> is written with the same clock reading as \<^verbatim>\<open>last_sync\<close>).
\<close>

record sync_row =
  sr_last_sync :: datetime
  sr_last_data_timestamp :: "datetime option"
  sr_status :: string

text \<open>
  The database. Each table is a map from its \<^verbatim>\<open>UNIQUE\<close> key to the row:
  \<^verbatim>\<open>INSERT OR REPLACE\<close> is the map update.
\<close>

record storage =
  st_measurements :: "(datetime \<times> string) \<rightharpoonup> measurement"
  st_heart_rate :: "datetime \<rightharpoonup> heart_rate_sample"
  st_activity_summary :: "date \<rightharpoonup> activity_data"
  st_sleep_summary :: "datetime \<rightharpoonup> sleep_data"
  st_sync_state :: "string \<rightharpoonup> sync_row"

definition store_measurements :: "storage \<Rightarrow> measurement list \<Rightarrow> storage" where
  "store_measurements st measurements =
     st\<lparr>st_measurements :=
          foldl (\<lambda>tbl m. tbl((m_timestamp m, m_measure_type m) \<mapsto> m)) (st_measurements st) measurements\<rparr>"

definition store_heart_rate :: "storage \<Rightarrow> heart_rate_sample list \<Rightarrow> storage" where
  "store_heart_rate st heart_rates =
     st\<lparr>st_heart_rate := foldl (\<lambda>tbl h. tbl(h_timestamp h \<mapsto> h)) (st_heart_rate st) heart_rates\<rparr>"

definition store_activity_summary :: "storage \<Rightarrow> activity_data list \<Rightarrow> storage" where
  "store_activity_summary st activities =
     st\<lparr>st_activity_summary := foldl (\<lambda>tbl a. tbl(ad_date a \<mapsto> a)) (st_activity_summary st) activities\<rparr>"

definition store_sleep_summary :: "storage \<Rightarrow> sleep_data list \<Rightarrow> storage" where
  "store_sleep_summary st sleep_sessions =
     st\<lparr>st_sleep_summary := foldl (\<lambda>tbl x. tbl(sd_start_time x \<mapsto> x)) (st_sleep_summary st) sleep_sessions\<rparr>"

text \<open>
  \<^verbatim>\<open>HealthDataStorage.update_sync_state(data_type, last_data_timestamp=None, status)\<close>:
  the whole row is replaced. \<open>now\<close> is \<^verbatim>\<open>datetime.now()\<close>.
\<close>

definition update_sync_state ::
  "storage \<Rightarrow> string \<Rightarrow> datetime option \<Rightarrow> string \<Rightarrow> datetime \<Rightarrow> storage"
where
  "update_sync_state st data_type last_data_timestamp status now =
     st\<lparr>st_sync_state := (st_sync_state st)(data_type \<mapsto>
          \<lparr>sr_last_sync = now, sr_last_data_timestamp = last_data_timestamp, sr_status = status\<rparr>)\<rparr>"

definition get_sync_state :: "storage \<Rightarrow> string \<Rightarrow> sync_row option" where
  "get_sync_state st data_type = st_sync_state st data_type"

section \<open>fetcher.py: the measurement fetch\<close>

text \<open>
  The library functions of the platform the fetcher calls, taken as parameters:
  \<^verbatim>\<open>datetime.fromtimestamp\<close> (local time), \<^verbatim>\<open>int(d.timestamp())\<close>,
  \<^verbatim>\<open>d.strftime('%Y-%m-%d')\<close> and \<^verbatim>\<open>datetime.strptime(s, '%Y-%m-%d').date()\<close>
  (\<open>None\<close> when it raises \<^verbatim>\<open>ValueError\<close>).
\<close>

record platform =
  fromtimestamp :: "int \<Rightarrow> datetime"
  to_timestamp :: "datetime \<Rightarrow> int"
  strftime_ymd :: "datetime \<Rightarrow> string"
  strptime_ymd :: "string \<Rightarrow> date option"

text \<open>The vendor's measurement page; a key the code reads with \<^verbatim>\<open>d[k]\<close> or \<^verbatim>\<open>d.get(k)\<close> may be absent.\<close>

record raw_measure =
  ms_type :: "int option"
  ms_value :: "int option"
  ms_unit :: "int option"

record measure_group =
  mg_date :: "int option"
  mg_deviceid :: "string option"
  mg_grpid :: "int option"
  mg_measures :: "raw_measure list option"

record measurement_page =
  pg_measuregrps :: "measure_group list option"
  pg_more :: "bool option"
  pg_offset :: "int option"

definition MAX_DAYS_PER_REQUEST :: int where
  "MAX_DAYS_PER_REQUEST = 200"

definition measure_map :: "(int \<times> string) list" where
  "measure_map =
    [(1, ''weight''), (4, ''height''), (5, ''fat_free_mass''), (6, ''fat_ratio''),
     (8, ''fat_mass''), (9, ''diastolic_blood_pressure''), (10, ''systolic_blood_pressure''),
     (11, ''heart_rate''), (12, ''temperature''), (54, ''spo2''), (71, ''body_temperature''),
     (73, ''skin_temperature''), (76, ''muscle_mass''), (77, ''hydration''), (88, ''bone_mass''),
     (91, ''pulse_wave_velocity''), (123, ''vo2_max''), (155, ''vascular_age'')]"

definition get_measure_type_name :: "int \<Rightarrow> string" where
  "get_measure_type_name measure_type =
     (case map_of measure_map measure_type of
        None \<Rightarrow> ''unknown_'' @ str_int measure_type
      | Some n \<Rightarrow> n)"

text \<open>The degree sign of the three temperature units is written as its two UTF-8 bytes.\<close>

definition degree_C :: string where
  "degree_C = [CHR 0xC2, CHR 0xB0, CHR ''C'']"

definition unit_map :: "(int \<times> string) list" where
  "unit_map =
    [(1, ''kg''), (4, ''m''), (5, ''kg''), (6, ''%''), (8, ''kg''), (9, ''mmHg''), (10, ''mmHg''),
     (11, ''bpm''), (12, degree_C), (54, ''%''), (71, degree_C), (73, degree_C), (76, ''kg''),
     (77, ''kg''), (88, ''kg''), (91, ''m/s''), (123, ''ml/min/kg''), (155, ''years'')]"

definition get_measure_unit :: "int \<Rightarrow> string" where
  "get_measure_unit measure_type =
     (case map_of unit_map measure_type of None \<Rightarrow> ''unknown'' | Some u \<Rightarrow> u)"

text \<open>
  The working set of \<^verbatim>\<open>fetch_measurements\<close>: the local variables of its loop, the
  \<^verbatim>\<open>get_measurements\<close> calls made so far (start, end and offset arguments) and whether
  the early-stop warning was logged.
\<close>

record pstate =
  ps_measurements :: "measurement list"
  ps_heart_rates :: "heart_rate_sample list"
  ps_last_timestamp :: "datetime option"
  ps_offset :: "int option"
  ps_seen_offsets :: "int set"
  ps_calls :: "(int option \<times> int option \<times> int option) list"
  ps_warned :: bool

text \<open>The inner \<^verbatim>\<open>for measure in measure_group.get('measures', [])\<close> loop.\<close>

fun process_measures ::
  "bool \<Rightarrow> datetime \<Rightarrow> string option \<Rightarrow> int option \<Rightarrow> raw_measure list \<Rightarrow> pstate \<Rightarrow> exn + pstate"
where
  "process_measures store_hr timestamp device_id grpid [] s = Inr s"
| "process_measures store_hr timestamp device_id grpid (meas # rest) s =
     (case ms_type meas of
        None \<Rightarrow> Inl (KeyError ''type'')
      | Some measure_type \<Rightarrow>
          (case ms_value meas of
             None \<Rightarrow> Inl (KeyError ''value'')
           | Some v \<Rightarrow>
               (case ms_unit meas of
                  None \<Rightarrow> Inl (KeyError ''unit'')
                | Some u \<Rightarrow>
                    (let real_value = of_int v * (10 powi u);
                         raw = \<lparr>rd_type = measure_type, rd_value = v, rd_unit = u, rd_grpid = grpid\<rparr>;
                         measurement =
                           \<lparr>m_timestamp = timestamp,
                            m_measure_type = get_measure_type_name measure_type,
                            m_value = real_value,
                            m_unit = get_measure_unit measure_type,
                            m_device_id = device_id,
                            m_raw_data = raw\<rparr>;
                         s1 = s\<lparr>ps_measurements := ps_measurements s @ [measurement]\<rparr>;
                         s2 = (if store_hr \<and> measure_type = 11
                               then s1\<lparr>ps_heart_rates := ps_heart_rates s1 @
                                      [\<lparr>h_timestamp = timestamp, h_heart_rate = real_value,
                                        h_device_id = device_id, h_raw_data = raw\<rparr>]\<rparr>
                               else s1);
                         s3 = (case ps_last_timestamp s2 of
                                 None \<Rightarrow> s2\<lparr>ps_last_timestamp := Some timestamp\<rparr>
                               | Some l \<Rightarrow> if timestamp > l then s2\<lparr>ps_last_timestamp := Some timestamp\<rparr> else s2)
                     in process_measures store_hr timestamp device_id grpid rest s3))))"

text \<open>The outer \<^verbatim>\<open>for measure_group in measuregrps\<close> loop.\<close>

fun process_groups :: "platform \<Rightarrow> bool \<Rightarrow> measure_group list \<Rightarrow> pstate \<Rightarrow> exn + pstate" where
  "process_groups P store_hr [] s = Inr s"
| "process_groups P store_hr (measure_group # rest) s =
     (case mg_date measure_group of
        None \<Rightarrow> Inl (KeyError ''date'')
      | Some d \<Rightarrow>
          (case process_measures store_hr (fromtimestamp P d) (mg_deviceid measure_group)
                  (mg_grpid measure_group)
                  (case mg_measures measure_group of None \<Rightarrow> [] | Some ms \<Rightarrow> ms) s of
             Inl e \<Rightarrow> Inl e
           | Inr s' \<Rightarrow> process_groups P store_hr rest s'))"

text \<open>
  One iteration of \<^verbatim>\<open>while True\<close>: the \<open>n\<close>-th call of \<^verbatim>\<open>api.get_measurements\<close> in this
  fetch returns or raises \<open>api n\<close>. \<open>Inl\<close> leaves the loop (with the exception raised, if
  any), \<open>Inr\<close> goes round again.
\<close>

definition page_step ::
  "platform \<Rightarrow> (nat \<Rightarrow> exn + measurement_page) \<Rightarrow> int option \<Rightarrow> int option \<Rightarrow> bool \<Rightarrow> pstate
     \<Rightarrow> (exn option \<times> pstate) + pstate"
where
  "page_step P api startdate_ts enddate_ts store_hr s =
     (let s1 = s\<lparr>ps_calls := ps_calls s @ [(startdate_ts, enddate_ts, ps_offset s)]\<rparr>
      in case api (length (ps_calls s)) of
           Inl e \<Rightarrow> Inl (Some e, s1)
         | Inr result \<Rightarrow>
             (case process_groups P store_hr
                     (case pg_measuregrps result of None \<Rightarrow> [] | Some gs \<Rightarrow> gs) s1 of
                Inl e \<Rightarrow> Inl (Some e, s1)
              | Inr s2 \<Rightarrow>
                  (if pg_more result \<noteq> Some True then Inl (None, s2)
                   else
                     (let s3 = s2\<lparr>ps_offset := pg_offset result\<rparr>
                      in case pg_offset result of
                           None \<Rightarrow> Inl (None, s3\<lparr>ps_warned := True\<rparr>)
                         | Some off \<Rightarrow>
                             if off \<in> ps_seen_offsets s3 then Inl (None, s3\<lparr>ps_warned := True\<rparr>)
                             else Inr (s3\<lparr>ps_seen_offsets := insert off (ps_seen_offsets s3)\<rparr>)))))"

text \<open>The \<^verbatim>\<open>while True\<close> loop; \<open>None\<close> is the loop that never ends.\<close>

partial_function (option) paginate ::
  "platform \<Rightarrow> (nat \<Rightarrow> exn + measurement_page) \<Rightarrow> int option \<Rightarrow> int option \<Rightarrow> bool \<Rightarrow> pstate
     \<Rightarrow> (exn option \<times> pstate) option"
where
  "paginate P api startdate_ts enddate_ts store_hr s =
     (case page_step P api startdate_ts enddate_ts store_hr s of
        Inl outcome \<Rightarrow> Some outcome
      | Inr s' \<Rightarrow> paginate P api startdate_ts enddate_ts store_hr s')"

definition initial_pstate :: pstate where
  "initial_pstate =
     \<lparr>ps_measurements = [], ps_heart_rates = [], ps_last_timestamp = None, ps_offset = None,
      ps_seen_offsets = {}, ps_calls = [], ps_warned = False\<rparr>"

text \<open>
  The body of the \<^verbatim>\<open>try\<close> of \<^verbatim>\<open>fetch_measurements\<close>: the exception it raises, or the
  storage it leaves.
\<close>

definition fetch_measurements_try ::
  "platform \<Rightarrow> (nat \<Rightarrow> exn + measurement_page) \<Rightarrow> storage \<Rightarrow> datetime option \<Rightarrow> datetime option
     \<Rightarrow> bool \<Rightarrow> datetime \<Rightarrow> (exn + storage) option"
where
  "fetch_measurements_try P api st start_date end_date store_hr now =
     (let sync_state = get_sync_state st ''measurements'';
          start_date' = (case start_date of
                           Some d \<Rightarrow> Some d
                         | None \<Rightarrow> (case sync_state of None \<Rightarrow> None | Some row \<Rightarrow> sr_last_data_timestamp row));
          startdate_ts = map_option (to_timestamp P) start_date';
          enddate_ts = map_option (to_timestamp P) end_date
      in case paginate P api startdate_ts enddate_ts store_hr initial_pstate of
           None \<Rightarrow> None
         | Some (Some e, s) \<Rightarrow> Some (Inl e)
         | Some (None, s) \<Rightarrow>
             Some (Inr
               (if ps_measurements s \<noteq> []
                then update_sync_state
                       (let st1 = store_measurements st (ps_measurements s)
                        in if ps_heart_rates s \<noteq> [] then store_heart_rate st1 (ps_heart_rates s) else st1)
                       ''measurements'' (ps_last_timestamp s) ''success'' now
                else update_sync_state st ''measurements'' None ''success'' now)))"

text \<open>\<^verbatim>\<open>fetch_measurements\<close>: both \<^verbatim>\<open>except\<close> clauses record status \<^verbatim>\<open>error\<close>.\<close>

definition fetch_measurements ::
  "platform \<Rightarrow> (nat \<Rightarrow> exn + measurement_page) \<Rightarrow> storage \<Rightarrow> datetime option \<Rightarrow> datetime option
     \<Rightarrow> bool \<Rightarrow> datetime \<Rightarrow> storage option"
where
  "fetch_measurements P api st start_date end_date store_hr now =
     (case fetch_measurements_try P api st start_date end_date store_hr now of
        None \<Rightarrow> None
      | Some (Inl e) \<Rightarrow>
          Some (if is_WithingsAPIError e
                then update_sync_state st ''measurements'' None ''error'' now
                else update_sync_state st ''measurements'' None ''error'' now)
      | Some (Inr st') \<Rightarrow> Some st')"

section \<open>fetcher.py: the activity and sleep fetches\<close>

text \<open>
  One chunk request as the loop issues it: the two \<^verbatim>\<open>datetime\<close> bounds of the chunk and
  the two strings sent as \<^verbatim>\<open>startdateymd\<close> and \<^verbatim>\<open>enddateymd\<close>.
\<close>

record chunk_call =
  cc_current_date :: datetime
  cc_chunk_end :: datetime
  cc_startdateymd :: string
  cc_enddateymd :: string

definition convert_activity :: "platform \<Rightarrow> raw_activity \<Rightarrow> exn + activity_data" where
  "convert_activity P activity =
     (case ra_date activity of
        None \<Rightarrow> Inl (KeyError ''date'')
      | Some ds \<Rightarrow>
          (case strptime_ymd P ds of
             None \<Rightarrow> Inl (ValueError ds)
           | Some activity_date \<Rightarrow>
               Inr \<lparr>ad_date = activity_date,
                    ad_steps = map_of (ra_fields activity) ''steps'',
                    ad_distance = map_of (ra_fields activity) ''distance'',
                    ad_calories = map_of (ra_fields activity) ''calories'',
                    ad_elevation = map_of (ra_fields activity) ''elevation'',
                    ad_soft_activity_duration = map_of (ra_fields activity) ''soft'',
                    ad_moderate_activity_duration = map_of (ra_fields activity) ''moderate'',
                    ad_intense_activity_duration = map_of (ra_fields activity) ''intense'',
                    ad_active_calories = map_of (ra_fields activity) ''active'',
                    ad_total_calories = map_of (ra_fields activity) ''totalcalories'',
                    ad_raw_data = activity\<rparr>))"

text \<open>The \<^verbatim>\<open>for activity in activities_list\<close> loop; it stops at the first exception.\<close>

fun convert_activities :: "platform \<Rightarrow> raw_activity list \<Rightarrow> exn + activity_data list" where
  "convert_activities P [] = Inr []"
| "convert_activities P (activity # rest) =
     (case convert_activity P activity of
        Inl e \<Rightarrow> Inl e
      | Inr a \<Rightarrow> (case convert_activities P rest of Inl e \<Rightarrow> Inl e | Inr as \<Rightarrow> Inr (a # as)))"

text \<open>
  The \<^verbatim>\<open>while current_date < end_date\<close> loop of \<^verbatim>\<open>fetch_activity\<close>. The \<open>n\<close>-th call of
  \<^verbatim>\<open>api.get_activity\<close> in this fetch returns the \<^verbatim>\<open>activities\<close> entry of its result, or
  raises, as \<open>api n\<close> says. A \<^verbatim>\<open>WithingsAPIError\<close> skips the chunk; any other exception
  leaves the loop.
\<close>

function activity_loop ::
  "platform \<Rightarrow> (nat \<Rightarrow> exn + raw_activity list option) \<Rightarrow> datetime \<Rightarrow> datetime
     \<Rightarrow> activity_data list \<Rightarrow> chunk_call list \<Rightarrow> (exn + activity_data list) \<times> chunk_call list"
where
  "activity_loop P api current_date end_date all_activities calls =
     (if current_date < end_date
      then
        (let chunk_end = min (current_date + timedelta_days MAX_DAYS_PER_REQUEST) end_date;
             calls' = calls @ [\<lparr>cc_current_date = current_date, cc_chunk_end = chunk_end,
                                cc_startdateymd = strftime_ymd P current_date,
                                cc_enddateymd = strftime_ymd P chunk_end\<rparr>]
         in case api (length calls) of
              Inl e \<Rightarrow>
                (if is_WithingsAPIError e
                 then activity_loop P api chunk_end end_date all_activities calls'
                 else (Inl e, calls'))
            | Inr result \<Rightarrow>
                (case convert_activities P (case result of None \<Rightarrow> [] | Some l \<Rightarrow> l) of
                   Inl e \<Rightarrow> (Inl e, calls')
                 | Inr rows \<Rightarrow> activity_loop P api chunk_end end_date (all_activities @ rows) calls'))
      else (Inr all_activities, calls))"
  by pat_completeness auto
termination
  by (relation "measure (\<lambda>(P, api, current_date, end_date, all_activities, calls). nat (end_date - current_date))")
     (auto simp: timedelta_days_def MAX_DAYS_PER_REQUEST_def)

declare activity_loop.simps [simp del]

text \<open>The body of the \<^verbatim>\<open>try\<close> of \<^verbatim>\<open>fetch_activity\<close>.\<close>

definition fetch_activity_try ::
  "platform \<Rightarrow> (nat \<Rightarrow> exn + raw_activity list option) \<Rightarrow> storage \<Rightarrow> datetime option
     \<Rightarrow> datetime option \<Rightarrow> datetime \<Rightarrow> exn + storage"
where
  "fetch_activity_try P api st start_date end_date now =
     (let sync_state = get_sync_state st ''activity'';
          start_date1 = (case start_date of
                           Some d \<Rightarrow> Some d
                         | None \<Rightarrow> (case sync_state of None \<Rightarrow> None | Some row \<Rightarrow> sr_last_data_timestamp row));
          start_date2 = (case start_date1 of None \<Rightarrow> now - timedelta_days 3650 | Some d \<Rightarrow> d);
          end_date2 = (case end_date of None \<Rightarrow> now | Some d \<Rightarrow> d)
      in case fst (activity_loop P api start_date2 end_date2 [] []) of
           Inl e \<Rightarrow> Inl e
         | Inr all_activities \<Rightarrow>
             Inr (case all_activities of
                    [] \<Rightarrow> update_sync_state st ''activity'' None ''success'' now
                  | a # rest \<Rightarrow>
                      update_sync_state (store_activity_summary st all_activities) ''activity''
                        (Some (combine_midnight (foldl max (ad_date a) (map ad_date rest))))
                        ''success'' now))"

definition fetch_activity ::
  "platform \<Rightarrow> (nat \<Rightarrow> exn + raw_activity list option) \<Rightarrow> storage \<Rightarrow> datetime option
     \<Rightarrow> datetime option \<Rightarrow> datetime \<Rightarrow> storage"
where
  "fetch_activity P api st start_date end_date now =
     (case fetch_activity_try P api st start_date end_date now of
        Inl e \<Rightarrow> update_sync_state st ''activity'' None ''error'' now
      | Inr st' \<Rightarrow> st')"

text \<open>
  \<^verbatim>\<open>(end_time - start_time).seconds\<close>: the seconds field of the normalised
  \<^verbatim>\<open>timedelta\<close>.
\<close>

definition timedelta_seconds :: "int \<Rightarrow> int" where
  "timedelta_seconds delta = (delta div 1000000) mod 86400"

definition convert_sleep :: "platform \<Rightarrow> raw_sleep \<Rightarrow> exn + sleep_data" where
  "convert_sleep P sleep_session =
     (case rs_startdate sleep_session of
        None \<Rightarrow> Inl (KeyError ''startdate'')
      | Some sd \<Rightarrow>
          (case rs_enddate sleep_session of
             None \<Rightarrow> Inl (KeyError ''enddate'')
           | Some ed \<Rightarrow>
               (let start_time = fromtimestamp P sd;
                    end_time = fromtimestamp P ed;
                    data = (case rs_data sleep_session of None \<Rightarrow> [] | Some d \<Rightarrow> d)
                in Inr \<lparr>sd_start_time = start_time,
                        sd_end_time = end_time,
                        sd_duration =
                          (case map_of data ''total_sleep_time'' of
                             None \<Rightarrow> of_int (timedelta_seconds (end_time - start_time))
                           | Some t \<Rightarrow> if t = 0 then of_int (timedelta_seconds (end_time - start_time)) else t),
                        sd_quality = map_of data ''sleep_score'',
                        sd_deep_duration = map_of data ''deepsleepduration'',
                        sd_light_duration = map_of data ''lightsleepduration'',
                        sd_rem_duration = map_of data ''remsleepduration'',
                        sd_awake_duration = map_of data ''wakeupduration'',
                        sd_heart_rate_avg = map_of data ''hr_average'',
                        sd_heart_rate_min = map_of data ''hr_min'',
                        sd_heart_rate_max = map_of data ''hr_max'',
                        sd_respiration_rate_avg = map_of data ''rr_average'',
                        sd_snoring_duration = map_of data ''snoring'',
                        sd_raw_data = sleep_session\<rparr>)))"

fun convert_sleeps :: "platform \<Rightarrow> raw_sleep list \<Rightarrow> exn + sleep_data list" where
  "convert_sleeps P [] = Inr []"
| "convert_sleeps P (sleep_session # rest) =
     (case convert_sleep P sleep_session of
        Inl e \<Rightarrow> Inl e
      | Inr x \<Rightarrow> (case convert_sleeps P rest of Inl e \<Rightarrow> Inl e | Inr xs \<Rightarrow> Inr (x # xs)))"

text \<open>
  The \<^verbatim>\<open>while current_date < end_date\<close> loop of \<^verbatim>\<open>fetch_sleep\<close>; \<open>api n\<close> is the
  \<^verbatim>\<open>series\<close> entry of the \<open>n\<close>-th \<^verbatim>\<open>api.get_sleep_summary\<close> result, or what it raises.
\<close>

function sleep_loop ::
  "platform \<Rightarrow> (nat \<Rightarrow> exn + raw_sleep list option) \<Rightarrow> datetime \<Rightarrow> datetime
     \<Rightarrow> sleep_data list \<Rightarrow> chunk_call list \<Rightarrow> (exn + sleep_data list) \<times> chunk_call list"
where
  "sleep_loop P api current_date end_date all_sleep_sessions calls =
     (if current_date < end_date
      then
        (let chunk_end = min (current_date + timedelta_days MAX_DAYS_PER_REQUEST) end_date;
             calls' = calls @ [\<lparr>cc_current_date = current_date, cc_chunk_end = chunk_end,
                                cc_startdateymd = strftime_ymd P current_date,
                                cc_enddateymd = strftime_ymd P chunk_end\<rparr>]
         in case api (length calls) of
              Inl e \<Rightarrow>
                (if is_WithingsAPIError e
                 then sleep_loop P api chunk_end end_date all_sleep_sessions calls'
                 else (Inl e, calls'))
            | Inr result \<Rightarrow>
                (case convert_sleeps P (case result of None \<Rightarrow> [] | Some l \<Rightarrow> l) of
                   Inl e \<Rightarrow> (Inl e, calls')
                 | Inr rows \<Rightarrow> sleep_loop P api chunk_end end_date (all_sleep_sessions @ rows) calls'))
      else (Inr all_sleep_sessions, calls))"
  by pat_completeness auto
termination
  by (relation "measure (\<lambda>(P, api, current_date, end_date, all_sleep_sessions, calls). nat (end_date - current_date))")
     (auto simp: timedelta_days_def MAX_DAYS_PER_REQUEST_def)

declare sleep_loop.simps [simp del]

definition fetch_sleep_try ::
  "platform \<Rightarrow> (nat \<Rightarrow> exn + raw_sleep list option) \<Rightarrow> storage \<Rightarrow> datetime option
     \<Rightarrow> datetime option \<Rightarrow> datetime \<Rightarrow> exn + storage"
where
  "fetch_sleep_try P api st start_date end_date now =
     (let sync_state = get_sync_state st ''sleep'';
          start_date1 = (case start_date of
                           Some d \<Rightarrow> Some d
                         | None \<Rightarrow> (case sync_state of None \<Rightarrow> None | Some row \<Rightarrow> sr_last_data_timestamp row));
          start_date2 = (case start_date1 of None \<Rightarrow> now - timedelta_days 3650 | Some d \<Rightarrow> d);
          end_date2 = (case end_date of None \<Rightarrow> now | Some d \<Rightarrow> d)
      in case fst (sleep_loop P api start_date2 end_date2 [] []) of
           Inl e \<Rightarrow> Inl e
         | Inr all_sleep_sessions \<Rightarrow>
             Inr (case all_sleep_sessions of
                    [] \<Rightarrow> update_sync_state st ''sleep'' None ''success'' now
                  | x # rest \<Rightarrow>
                      update_sync_state (store_sleep_summary st all_sleep_sessions) ''sleep''
                        (Some (foldl max (sd_start_time x) (map sd_start_time rest)))
                        ''success'' now))"

definition fetch_sleep ::
  "platform \<Rightarrow> (nat \<Rightarrow> exn + raw_sleep list option) \<Rightarrow> storage \<Rightarrow> datetime option
     \<Rightarrow> datetime option \<Rightarrow> datetime \<Rightarrow> storage"
where
  "fetch_sleep P api st start_date end_date now =
     (case fetch_sleep_try P api st start_date end_date now of
        Inl e \<Rightarrow> update_sync_state st ''sleep'' None ''error'' now
      | Inr st' \<Rightarrow> st')"

section \<open>fetcher.py: fetch\_all\_data\<close>





section \<open>Notions the statements use\<close>

text \<open>
  The first \<open>n\<close> iterations of the pagination loop: \<open>None\<close> when the loop has not yet
  left after \<open>n\<close> iterations.
\<close>

fun paginate_within ::
  "nat \<Rightarrow> platform \<Rightarrow> (nat \<Rightarrow> exn + measurement_page) \<Rightarrow> int option \<Rightarrow> int option \<Rightarrow> bool \<Rightarrow> pstate
     \<Rightarrow> (exn option \<times> pstate) option"
where
  "paginate_within 0 P api startdate_ts enddate_ts store_hr s = None"
| "paginate_within (Suc n) P api startdate_ts enddate_ts store_hr s =
     (case page_step P api startdate_ts enddate_ts store_hr s of
        Inl outcome \<Rightarrow> Some outcome
      | Inr s' \<Rightarrow> paginate_within n P api startdate_ts enddate_ts store_hr s')"

text \<open>The offsets the vendor ever returns in a measurement page.\<close>

definition offsets_returned :: "(nat \<Rightarrow> exn + measurement_page) \<Rightarrow> int set" where
  "offsets_returned api = {off. \<exists>n pg. api n = Inr pg \<and> pg_offset pg = Some off}"

text \<open>The state after one measure has been staged.\<close>

definition stage_measure ::
  "bool \<Rightarrow> datetime \<Rightarrow> string option \<Rightarrow> int option \<Rightarrow> int \<Rightarrow> int \<Rightarrow> int \<Rightarrow> pstate \<Rightarrow> pstate"
where
  "stage_measure store_hr timestamp device_id grpid measure_type v u s =
     (let real_value = of_int v * (10 powi u);
          raw = \<lparr>rd_type = measure_type, rd_value = v, rd_unit = u, rd_grpid = grpid\<rparr>;
          measurement =
            \<lparr>m_timestamp = timestamp,
             m_measure_type = get_measure_type_name measure_type,
             m_value = real_value,
             m_unit = get_measure_unit measure_type,
             m_device_id = device_id,
             m_raw_data = raw\<rparr>;
          s1 = s\<lparr>ps_measurements := ps_measurements s @ [measurement]\<rparr>;
          s2 = (if store_hr \<and> measure_type = 11
                then s1\<lparr>ps_heart_rates := ps_heart_rates s1 @
                       [\<lparr>h_timestamp = timestamp, h_heart_rate = real_value,
                         h_device_id = device_id, h_raw_data = raw\<rparr>]\<rparr>
                else s1);
          s3 = (case ps_last_timestamp s2 of
                  None \<Rightarrow> s2\<lparr>ps_last_timestamp := Some timestamp\<rparr>
                | Some l \<Rightarrow> if timestamp > l then s2\<lparr>ps_last_timestamp := Some timestamp\<rparr> else s2)
      in s3)"


text \<open>
  The chunks of the range from \<open>current_date\<close> to \<open>end_date\<close>, as the two chunking
  loops step through them, and the request made for a chunk.
\<close>

function chunk_bounds :: "datetime \<Rightarrow> datetime \<Rightarrow> (datetime \<times> datetime) list" where
  "chunk_bounds current_date end_date =
     (if current_date < end_date
      then (current_date, min (current_date + timedelta_days MAX_DAYS_PER_REQUEST) end_date)
             # chunk_bounds (min (current_date + timedelta_days MAX_DAYS_PER_REQUEST) end_date) end_date
      else [])"
  by pat_completeness auto
termination
  by (relation "measure (\<lambda>(current_date, end_date). nat (end_date - current_date))")
     (auto simp: timedelta_days_def MAX_DAYS_PER_REQUEST_def)

declare chunk_bounds.simps [simp del]

definition chunk_call_of :: "platform \<Rightarrow> datetime \<times> datetime \<Rightarrow> chunk_call" where
  "chunk_call_of P b =
     \<lparr>cc_current_date = fst b, cc_chunk_end = snd b,
      cc_startdateymd = strftime_ymd P (fst b), cc_enddateymd = strftime_ymd P (snd b)\<rparr>"

text \<open>The records the \<open>n\<close>-th chunk request contributes: none when the request raises.\<close>

definition activity_chunk_rows :: "platform \<Rightarrow> (nat \<Rightarrow> exn + raw_activity list option) \<Rightarrow> nat \<Rightarrow> activity_data list" where
  "activity_chunk_rows P api n =
     (case api n of
        Inl e \<Rightarrow> []
      | Inr result \<Rightarrow>
          (case convert_activities P (case result of None \<Rightarrow> [] | Some l \<Rightarrow> l) of
             Inl e \<Rightarrow> []
           | Inr rows \<Rightarrow> rows))"

definition sleep_chunk_rows :: "platform \<Rightarrow> (nat \<Rightarrow> exn + raw_sleep list option) \<Rightarrow> nat \<Rightarrow> sleep_data list" where
  "sleep_chunk_rows P api n =
     (case api n of
        Inl e \<Rightarrow> []
      | Inr result \<Rightarrow>
          (case convert_sleeps P (case result of None \<Rightarrow> [] | Some l \<Rightarrow> l) of
             Inl e \<Rightarrow> []
           | Inr rows \<Rightarrow> rows))"

text \<open>
  The two records the loop body makes of a measure: the \<^verbatim>\<open>measurement\<close> dictionary, and
  the dictionary appended to \<^verbatim>\<open>heart_rates\<close>.
\<close>

definition staged_measurement ::
  "datetime \<Rightarrow> string option \<Rightarrow> int option \<Rightarrow> int \<Rightarrow> int \<Rightarrow> int \<Rightarrow> measurement"
where
  "staged_measurement timestamp device_id grpid measure_type v u =
     \<lparr>m_timestamp = timestamp,
      m_measure_type = get_measure_type_name measure_type,
      m_value = of_int v * (10 powi u),
      m_unit = get_measure_unit measure_type,
      m_device_id = device_id,
      m_raw_data = \<lparr>rd_type = measure_type, rd_value = v, rd_unit = u, rd_grpid = grpid\<rparr>\<rparr>"

definition staged_heart_rate ::
  "datetime \<Rightarrow> string option \<Rightarrow> int option \<Rightarrow> int \<Rightarrow> int \<Rightarrow> int \<Rightarrow> heart_rate_sample"
where
  "staged_heart_rate timestamp device_id grpid measure_type v u =
     \<lparr>h_timestamp = timestamp,
      h_heart_rate = of_int v * (10 powi u),
      h_device_id = device_id,
      h_raw_data = \<lparr>rd_type = measure_type, rd_value = v, rd_unit = u, rd_grpid = grpid\<rparr>\<rparr>"

text \<open>
  Every measure of a group has been staged in the working set: as a measurement, and as a
  heart-rate sample too when it has type 11 and heart-rate capture is on.
\<close>

definition group_staged :: "platform \<Rightarrow> bool \<Rightarrow> measure_group \<Rightarrow> pstate \<Rightarrow> bool" where
  "group_staged P store_hr g s =
     (\<exists>d. mg_date g = Some d
        \<and> (\<forall>m \<in> set (case mg_measures g of None \<Rightarrow> [] | Some ms \<Rightarrow> ms).
              \<exists>t v u. ms_type m = Some t \<and> ms_value m = Some v \<and> ms_unit m = Some u
                \<and> staged_measurement (fromtimestamp P d) (mg_deviceid g) (mg_grpid g) t v u
                     \<in> set (ps_measurements s)
                \<and> (store_hr \<and> t = 11 \<longrightarrow>
                      staged_heart_rate (fromtimestamp P d) (mg_deviceid g) (mg_grpid g) t v u
                        \<in> set (ps_heart_rates s))))"

section \<open>Concrete scenarios\<close>

text \<open>The client and the held token of the repository's OAuth test, with a user id.\<close>

definition example_client :: oauth_client where
  "example_client =
     \<lparr>client_id = ''client'', client_secret = ''secret'', callback_uri = ''http://localhost:8080'',
      auto_refresh = True, token = None, token_file = None\<rparr>"

definition example_token :: OAuthToken where
  "example_token =
     \<lparr>access_token = ''access'', refresh_token = ''refresh'', token_type = ''Bearer'',
      expires_in = 3600, token_expiry = 0, userid = Some 42, scope = None\<rparr>"

text \<open>A successful token response: HTTP 200, envelope status 0, with the given user id.\<close>

definition example_token_response :: "int option \<Rightarrow> http_response" where
  "example_token_response uid =
     \<lparr>status_code = 200,
      json = Some \<lparr>e_status = Some 0, e_error = None,
                   e_body = Some \<lparr>d_access_token = Some ''new-access'',
                                   d_refresh_token = Some ''new-refresh'',
                                   d_token_type = None, d_expires_in = Some 10800,
                                   d_token_expiry = None, d_userid = uid, d_scope = None\<rparr>\<rparr>\<rparr>"

text \<open>The token that response yields when it is received at clock reading 1000.5.\<close>

definition example_issued_token :: "int option \<Rightarrow> OAuthToken" where
  "example_issued_token uid =
     \<lparr>access_token = ''new-access'', refresh_token = ''new-refresh'', token_type = ''Bearer'',
      expires_in = 10800, token_expiry = 11800, userid = uid, scope = None\<rparr>"

text \<open>A vendor that answers every measurement request with an empty page, \<^verbatim>\<open>more = true\<close> and an offset never returned before.\<close>

definition fresh_offsets_api :: "nat \<Rightarrow> exn + measurement_page" where
  "fresh_offsets_api n = Inr \<lparr>pg_measuregrps = None, pg_more = Some True, pg_offset = Some (int n)\<rparr>"

text \<open>
  A platform to run the fetcher on: the proleptic Gregorian calendar with day 0 the first of
  January 1970, and UTC as the local time zone.
\<close>

definition civil_from_days :: "int \<Rightarrow> int \<times> int \<times> int" where
  "civil_from_days days =
     (let z = days + 719468;
          era = z div 146097;
          doe = z - era * 146097;
          yoe = (doe - doe div 1460 + doe div 36524 - doe div 146096) div 365;
          doy = doe - (365 * yoe + yoe div 4 - yoe div 100);
          mp = (5 * doy + 2) div 153;
          d = doy - (153 * mp + 2) div 5 + 1;
          m = (if mp < 10 then mp + 3 else mp - 9);
          y = yoe + era * 400 + (if m \<le> 2 then 1 else 0)
      in (y, m, d))"

definition days_from_civil :: "int \<Rightarrow> int \<Rightarrow> int \<Rightarrow> int" where
  "days_from_civil y m d =
     (let y' = (if m \<le> 2 then y - 1 else y);
          era = y' div 400;
          yoe = y' - era * 400;
          doy = (153 * (if m > 2 then m - 3 else m + 9) + 2) div 5 + d - 1;
          doe = yoe * 365 + yoe div 4 - yoe div 100 + doy
      in era * 146097 + doe - 719468)"

definition zero_pad :: "nat \<Rightarrow> int \<Rightarrow> string" where
  "zero_pad width i = replicate (width - length (str_int i)) CHR ''0'' @ str_int i"

definition format_ymd :: "int \<times> int \<times> int \<Rightarrow> string" where
  "format_ymd ymd = (case ymd of (y, m, d) \<Rightarrow> zero_pad 4 y @ ''-'' @ zero_pad 2 m @ ''-'' @ zero_pad 2 d)"

definition digit_value :: "char \<Rightarrow> int option" where
  "digit_value c = map_of (zip ''0123456789'' [0, 1, 2, 3, 4, 5, 6, 7, 8, 9]) c"

fun digits_value :: "string \<Rightarrow> int option" where
  "digits_value [] = None"
| "digits_value cs =
     foldl (\<lambda>acc c. case acc of None \<Rightarrow> None
                      | Some n \<Rightarrow> (case digit_value c of None \<Rightarrow> None | Some d \<Rightarrow> Some (10 * n + d)))
       (Some 0) cs"

definition days_in_month :: "int \<Rightarrow> int \<Rightarrow> int" where
  "days_in_month y m =
     (if m = 2 then (if y mod 4 = 0 \<and> (y mod 100 \<noteq> 0 \<or> y mod 400 = 0) then 29 else 28)
      else if m = 4 \<or> m = 6 \<or> m = 9 \<or> m = 11 then 30 else 31)"

definition parse_ymd :: "string \<Rightarrow> date option" where
  "parse_ymd s =
     (if length s = 10 \<and> s ! 4 = CHR ''-'' \<and> s ! 7 = CHR ''-''
      then (case (digits_value (take 4 s), digits_value (take 2 (drop 5 s)), digits_value (drop 8 s)) of
              (Some y, Some m, Some d) \<Rightarrow>
                if 1 \<le> y \<and> 1 \<le> m \<and> m \<le> 12 \<and> 1 \<le> d \<and> d \<le> days_in_month y m
                then Some (days_from_civil y m d) else None
            | _ \<Rightarrow> None)
      else None)"

definition example_platform :: platform where
  "example_platform =
     \<lparr>fromtimestamp = (\<lambda>ts. ts * 1000000),
      to_timestamp = (\<lambda>d. d div 1000000),
      strftime_ymd = (\<lambda>d. format_ymd (civil_from_days (d div 86400000000))),
      strptime_ymd = parse_ymd\<rparr>"

text \<open>A vendor that answers every measurement request with an empty page, \<^verbatim>\<open>more = true\<close> and offset 5.\<close>

definition repeating_offset_api :: "nat \<Rightarrow> exn + measurement_page" where
  "repeating_offset_api n = Inr \<lparr>pg_measuregrps = None, pg_more = Some True, pg_offset = Some 5\<rparr>"



text \<open>Midnight of the given civil date.\<close>

definition midnight :: "int \<Rightarrow> int \<Rightarrow> int \<Rightarrow> datetime" where
  "midnight y m d = combine_midnight (days_from_civil y m d)"






text \<open>An empty database.\<close>

definition empty_storage :: storage where
  "empty_storage =
     \<lparr>st_measurements = Map.empty, st_heart_rate = Map.empty, st_activity_summary = Map.empty,
      st_sleep_summary = Map.empty, st_sync_state = Map.empty\<rparr>"

text \<open>A vendor with nothing new: every request is answered with an empty list.\<close>

definition empty_measure_api :: "nat \<Rightarrow> exn + measurement_page" where
  "empty_measure_api n = Inr \<lparr>pg_measuregrps = Some [], pg_more = Some False, pg_offset = None\<rparr>"

definition empty_activity_api :: "nat \<Rightarrow> exn + raw_activity list option" where
  "empty_activity_api n = Inr (Some [])"

definition empty_sleep_api :: "nat \<Rightarrow> exn + raw_sleep list option" where
  "empty_sleep_api n = Inr (Some [])"

text \<open>
  A database whose three cursors were written by a successful sync: last data of
  19 July 2024, synced on 20 July 2024.
\<close>

definition synced_row :: sync_row where
  "synced_row =
     \<lparr>sr_last_sync = midnight 2024 7 20, sr_last_data_timestamp = Some (midnight 2024 7 19),
      sr_status = ''success''\<rparr>"

definition synced_storage :: storage where
  "synced_storage =
     empty_storage\<lparr>st_sync_state :=
        [''measurements'' \<mapsto> synced_row, ''activity'' \<mapsto> synced_row, ''sleep'' \<mapsto> synced_row]\<rparr>"




text \<open>
  A vendor with one measurement group of 19 July 2024, 00:00 UTC, holding one heart-rate
  measure of 72 bpm, and a vendor that announces a second page after it and fails there.
\<close>

definition example_hr_group :: measure_group where
  "example_hr_group =
     \<lparr>mg_date = Some 1721347200, mg_deviceid = Some ''scale'', mg_grpid = Some 7,
      mg_measures = Some [\<lparr>ms_type = Some 11, ms_value = Some 72, ms_unit = Some 0\<rparr>]\<rparr>"

definition heart_rate_api :: "nat \<Rightarrow> exn + measurement_page" where
  "heart_rate_api n =
     Inr \<lparr>pg_measuregrps = Some [example_hr_group], pg_more = Some False, pg_offset = None\<rparr>"

definition heart_rate_then_failure_api :: "nat \<Rightarrow> exn + measurement_page" where
  "heart_rate_then_failure_api n =
     (if n = 0
      then Inr \<lparr>pg_measuregrps = Some [example_hr_group], pg_more = Some True, pg_offset = Some 1\<rparr>
      else Inl (WithingsAPIError 2555 ''An unknown error occurred''))"

definition example_hr_measurement :: measurement where
  "example_hr_measurement =
     \<lparr>m_timestamp = 1721347200000000, m_measure_type = ''heart_rate'', m_value = 72,
      m_unit = ''bpm'', m_device_id = Some ''scale'',
      m_raw_data = \<lparr>rd_type = 11, rd_value = 72, rd_unit = 0, rd_grpid = Some 7\<rparr>\<rparr>"

definition example_hr_sample :: heart_rate_sample where
  "example_hr_sample =
     \<lparr>h_timestamp = 1721347200000000, h_heart_rate = 72, h_device_id = Some ''scale'',
      h_raw_data = \<lparr>rd_type = 11, rd_value = 72, rd_unit = 0, rd_grpid = Some 7\<rparr>\<rparr>"

section \<open>The request layer: rate-limit retries and authentication errors\<close>

lemma upper_GET_POST: "upper ''GET'' = ''GET''" "upper ''POST'' = ''POST''"
  by (simp_all add: upper_def upper_char_def)

text \<open>One attempt that is answered with status 601: sleep and retry below three retries, raise after.\<close>

lemma make_request_601_step:
  fixes w :: net
  assumes "upper method = ''GET'' \<or> upper method = ''POST''"
    and "srv (requests_made w) = Envelope (Some 601) body"
  shows "make_request srv method retry_count w =
     (if retry_count < 3
      then make_request srv method (retry_count + 1)
             (w\<lparr>requests_made := requests_made w + 1,
                sleeps := sleeps w @ [min (60 * 2 ^ retry_count) 300]\<rparr>)
      else (Inl (WithingsRateLimitError 60), w\<lparr>requests_made := requests_made w + 1\<rparr>))"
  using assms by (subst make_request.simps) (auto simp: Let_def)

lemma make_request_auth_step:
  fixes w :: net
  assumes "upper method = ''GET'' \<or> upper method = ''POST''"
    and "srv (requests_made w) = Envelope (Some status) body"
    and "status = 401 \<or> status = 328 \<or> status = 2554"
  shows "make_request srv method retry_count w =
     (Inl (WithingsAuthError status (status_message status ''Authentication failed'')),
      w\<lparr>requests_made := requests_made w + 1\<rparr>)"
  using assms by (subst make_request.simps) (auto simp: Let_def)

lemma make_request_601_always:
  fixes w :: net
  assumes m: "upper method = ''GET'' \<or> upper method = ''POST''"
    and s: "\<forall>n. \<exists>body. srv n = Envelope (Some 601) body"
  shows "make_request srv method 0 w =
     (Inl (WithingsRateLimitError 60),
      w\<lparr>requests_made := requests_made w + 4, sleeps := sleeps w @ [60, 120, 240]\<rparr>)"
proof -
  have step: "make_request srv method rc v =
     (if rc < 3
      then make_request srv method (rc + 1)
             (v\<lparr>requests_made := requests_made v + 1, sleeps := sleeps v @ [min (60 * 2 ^ rc) 300]\<rparr>)
      else (Inl (WithingsRateLimitError 60), v\<lparr>requests_made := requests_made v + 1\<rparr>))"
    for rc and v :: net
  proof -
    obtain body where "srv (requests_made v) = Envelope (Some 601) body"
      using s by blast
    then show ?thesis
      by (rule make_request_601_step [OF m])
  qed
  show ?thesis
    apply (subst step, simp)
    apply (subst step, simp)
    apply (subst step, simp)
    apply (subst step, simp)
    done
qed

text \<open>
  Claim C1. A request made with GET or POST whose every attempt is answered with envelope
  status 601 sleeps 60, 120 and 240 seconds (\<open>min (60 * 2 ^ attempt) 300\<close> for attempts
  0, 1, 2), issues four requests in all and raises \<^verbatim>\<open>WithingsRateLimitError\<close>. An attempt
  answered with status 401, 328 or 2554 raises \<^verbatim>\<open>WithingsAuthError\<close> at once: one more
  request is counted and no sleep is added.
\<close>

theorem make_request_retry_policy:
  fixes w :: net
  assumes "upper method = ''GET'' \<or> upper method = ''POST''"
  shows "((\<forall>n. \<exists>body. srv n = Envelope (Some 601) body) \<longrightarrow>
            make_request srv method 0 w =
              (Inl (WithingsRateLimitError 60),
               w\<lparr>requests_made := requests_made w + 4,
                 sleeps := sleeps w @ map (\<lambda>attempt. min (60 * 2 ^ attempt) 300) [0, 1, 2]\<rparr>)
            \<and> map (\<lambda>attempt. min (60 * 2 ^ attempt) 300) [0, 1, 2] = [60, 120, 240 :: int])
       \<and> (\<forall>status body.
            srv (requests_made w) = Envelope (Some status) body
              \<and> (status = 401 \<or> status = 328 \<or> status = 2554) \<longrightarrow>
            make_request srv method retry_count w =
              (Inl (WithingsAuthError status (status_message status ''Authentication failed'')),
               w\<lparr>requests_made := requests_made w + 1\<rparr>))"
proof (intro conjI impI allI)
  assume "\<forall>n. \<exists>body. srv n = Envelope (Some 601) body"
  from make_request_601_always [OF assms this, of w]
  show "make_request srv method 0 w =
      (Inl (WithingsRateLimitError 60),
       w\<lparr>requests_made := requests_made w + 4,
         sleeps := sleeps w @ map (\<lambda>attempt. min (60 * 2 ^ attempt) 300) [0, 1, 2]\<rparr>)"
    by simp
next
  show "map (\<lambda>attempt. min (60 * 2 ^ attempt) 300) [0, 1, 2] = [60, 120, 240 :: int]"
    by simp
next
  fix status body
  assume "srv (requests_made w) = Envelope (Some status) body
            \<and> (status = 401 \<or> status = 328 \<or> status = 2554)"
  then show "make_request srv method retry_count w =
      (Inl (WithingsAuthError status (status_message status ''Authentication failed'')),
       w\<lparr>requests_made := requests_made w + 1\<rparr>)"
    using make_request_auth_step [OF assms] by blast
qed

theorem make_request_retry_policy_witness:
  "make_request (\<lambda>n. Envelope (Some 601) (None :: (string \<times> unit) list option)) ''GET'' 0
       \<lparr>requests_made = 0, sleeps = []\<rparr>
     = (Inl (WithingsRateLimitError 60), \<lparr>requests_made = 4, sleeps = [60, 120, 240]\<rparr>)
   \<and> make_request (\<lambda>n. Envelope (Some 401) (None :: (string \<times> unit) list option)) ''POST'' 0
       \<lparr>requests_made = 0, sleeps = []\<rparr>
     = (Inl (WithingsAuthError 401 ''Authentication failed''), \<lparr>requests_made = 1, sleeps = []\<rparr>)
   \<and> make_request (\<lambda>n. Envelope (Some 2554) (None :: (string \<times> unit) list option)) ''GET'' 0
       \<lparr>requests_made = 0, sleeps = []\<rparr>
     = (Inl (WithingsAuthError 2554 ''Unknown action''), \<lparr>requests_made = 1, sleeps = []\<rparr>)"
  using make_request_retry_policy
          [of "''GET''" "\<lambda>n. Envelope (Some 601) (None :: (string \<times> unit) list option)"
              "\<lparr>requests_made = 0, sleeps = []\<rparr>" 0]
        make_request_retry_policy
          [of "''POST''" "\<lambda>n. Envelope (Some 401) (None :: (string \<times> unit) list option)"
              "\<lparr>requests_made = 0, sleeps = []\<rparr>" 0]
        make_request_retry_policy
          [of "''GET''" "\<lambda>n. Envelope (Some 2554) (None :: (string \<times> unit) list option)"
              "\<lparr>requests_made = 0, sleeps = []\<rparr>" 0]
  by (simp add: upper_GET_POST status_message_def STATUS_MESSAGES_def)

section \<open>The token: expiry, refresh and non-JSON responses\<close>

lemma from_dict_fields:
  "from_dict (body\<lparr>d_token_expiry := Some x\<rparr>) now = Inr tok \<Longrightarrow>
     token_expiry tok = x
     \<and> expires_in tok = (case d_expires_in body of None \<Rightarrow> 10800 | Some e \<Rightarrow> e)
     \<and> userid tok = d_userid body"
  by (auto simp: from_dict_def split: option.splits)

lemma from_dict_raises:
  "from_dict data now = Inl e \<Longrightarrow> e = KeyError ''access_token'' \<or> e = KeyError ''refresh_token''"
  by (auto simp: from_dict_def split: option.splits)

lemma exchange_token_expiry:
  "exchange_code_for_token c code outcome t = (Inr tok, c') \<Longrightarrow>
     token_expiry tok = py_int t + expires_in tok"
  by (auto simp: exchange_code_for_token_def Let_def
           split: post_outcome.splits option.splits sum.splits if_splits
           dest!: from_dict_fields)

lemma refresh_token_expiry:
  "refresh_access_token c outcome t = (Inr tok, c') \<Longrightarrow>
     token_expiry tok = py_int t + expires_in tok"
  by (auto simp: refresh_access_token_def Let_def
           split: post_outcome.splits option.splits sum.splits if_splits
           dest!: from_dict_fields)

lemma py_int_ge_iff: "0 \<le> now \<Longrightarrow> z \<le> py_int now \<longleftrightarrow> of_int z \<le> now"
  by (simp add: py_int_def le_floor_iff)

lemma example_exchange:
  "exchange_code_for_token example_client ''code'' (Response (example_token_response uid)) (2001 / 2)
     = (Inr (example_issued_token uid),
        example_client\<lparr>token := Some (example_issued_token uid),
                         token_file := Some (example_issued_token uid, 384)\<rparr>)"
  by (simp add: exchange_code_for_token_def example_client_def example_token_response_def
        example_issued_token_def raise_for_status_def response_json_def from_dict_def
        save_token_def py_int_def)

lemma example_refresh:
  "refresh_access_token (example_client\<lparr>token := Some example_token\<rparr>)
       (Response (example_token_response uid)) (2001 / 2)
     = (Inr (example_issued_token (if uid = None \<or> uid = Some 0 then Some 42 else uid)),
        example_client\<lparr>token := Some (example_issued_token (if uid = None \<or> uid = Some 0 then Some 42 else uid)),
                         token_file := Some (example_issued_token (if uid = None \<or> uid = Some 0 then Some 42 else uid), 384)\<rparr>)"
  by (simp add: refresh_access_token_def example_client_def example_token_def
        example_token_response_def example_issued_token_def raise_for_status_def
        response_json_def from_dict_def save_token_def py_int_def Let_def)

text \<open>
  Claim C2. A token issued by \<^verbatim>\<open>exchange_code_for_token\<close> or \<^verbatim>\<open>refresh_access_token\<close> at
  clock reading \<open>t\<close> has \<open>token_expiry = T + E\<close>, where \<open>T = int(t)\<close> is the issue time in
  whole seconds and \<open>E\<close> its \<open>expires_in\<close>. \<^verbatim>\<open>is_expired()\<close> with the default buffer, called
  at clock reading \<open>now\<close>, is true exactly when \<open>int(now) \<ge> T + E - 300\<close>; for a clock
  reading \<open>now \<ge> 0\<close> that is exactly when \<open>now \<ge> T + E - 300\<close>.
\<close>

theorem is_expired_iff:
  assumes "exchange_code_for_token c code outcome t = (Inr tok, c')
           \<or> refresh_access_token c outcome t = (Inr tok, c')"
  shows "token_expiry tok = py_int t + expires_in tok
       \<and> (is_expired tok 300 now \<longleftrightarrow> py_int now \<ge> py_int t + expires_in tok - 300)
       \<and> (0 \<le> now \<longrightarrow>
            (is_expired tok 300 now \<longleftrightarrow> now \<ge> of_int (py_int t + expires_in tok - 300)))"
proof -
  have "token_expiry tok = py_int t + expires_in tok"
    using assms exchange_token_expiry refresh_token_expiry by blast
  then show ?thesis
    by (simp add: is_expired_def py_int_ge_iff)
qed

theorem is_expired_iff_witness:
  "exchange_code_for_token example_client ''code'' (Response (example_token_response None)) (2001 / 2)
     = (Inr (example_issued_token None),
        example_client\<lparr>token := Some (example_issued_token None),
                         token_file := Some (example_issued_token None, 384)\<rparr>)
   \<and> token_expiry (example_issued_token None) = 1000 + 10800
   \<and> is_expired (example_issued_token None) 300 11500
   \<and> \<not> is_expired (example_issued_token None) 300 (22999 / 2)"
  using is_expired_iff [OF disjI1 [OF example_exchange [of None]], of 11500]
        is_expired_iff [OF disjI1 [OF example_exchange [of None]], of "22999 / 2"]
  by (simp add: example_exchange example_issued_token_def py_int_def)

text \<open>
  What \<^verbatim>\<open>refresh_access_token\<close> does with the user id: after a successful refresh the
  new token has the user id held before when the response body has no \<^verbatim>\<open>userid\<close> and
  also when it has the user id 0 (\<^verbatim>\<open>not self.token.userid\<close> is true of both), and the
  user id of the response otherwise.
\<close>

lemma refresh_userid:
  assumes "refresh_access_token c outcome t = (Inr tok, c')"
  shows "\<exists>held response result body.
           token c = Some held \<and> outcome = Response response \<and> json response = Some result
           \<and> e_body result = Some body
           \<and> userid tok = (if d_userid body = None \<or> d_userid body = Some 0
                            then userid held else d_userid body)
           \<and> token c' = Some tok"
  using assms
  by (auto simp: refresh_access_token_def response_json_def save_token_def Let_def
           split: post_outcome.splits option.splits sum.splits if_splits
           dest!: from_dict_fields)

text \<open>
  Claim C6. The claim holds of a response without \<^verbatim>\<open>userid\<close> (the held user id is kept)
  and of a response with a nonzero \<^verbatim>\<open>userid\<close> (it is adopted). It fails on the code for a
  response that contains the user id 0: the held token has user id 42, the response
  body says 0, and the refreshed token has 42, although the source comments the test with
  \<^verbatim>\<open>Preserve userid if not in refresh response\<close>.
\<close>

theorem refresh_userid_zero_keeps_held:
  "userid example_token = Some 42
   \<and> d_userid (the (e_body (the (json (example_token_response (Some 0)))))) = Some 0
   \<and> fst (refresh_access_token (example_client\<lparr>token := Some example_token\<rparr>)
            (Response (example_token_response (Some 0))) (2001 / 2))
     = Inr \<lparr>access_token = ''new-access'', refresh_token = ''new-refresh'', token_type = ''Bearer'',
            expires_in = 10800, token_expiry = 11800, userid = Some 42, scope = None\<rparr>
   \<and> fst (refresh_access_token (example_client\<lparr>token := Some example_token\<rparr>)
            (Response (example_token_response None)) (2001 / 2))
     = Inr \<lparr>access_token = ''new-access'', refresh_token = ''new-refresh'', token_type = ''Bearer'',
            expires_in = 10800, token_expiry = 11800, userid = Some 42, scope = None\<rparr>
   \<and> fst (refresh_access_token (example_client\<lparr>token := Some example_token\<rparr>)
            (Response (example_token_response (Some 7))) (2001 / 2))
     = Inr \<lparr>access_token = ''new-access'', refresh_token = ''new-refresh'', token_type = ''Bearer'',
            expires_in = 10800, token_expiry = 11800, userid = Some 7, scope = None\<rparr>"
proof -
  have "userid example_token = Some 42"
    by (simp add: example_token_def)
  moreover have "d_userid (the (e_body (the (json (example_token_response (Some 0)))))) = Some 0"
    by (simp add: example_token_response_def)
  ultimately show ?thesis
    by (simp add: example_refresh example_issued_token_def)
qed

lemma non_json_sublist:
  "sublist ''Non-JSON'' (oauth_error_str sc ''Non-JSON response from token endpoint'')"
proof -
  have "oauth_error_str sc ''Non-JSON response from token endpoint''
          = (''OAuth Error '' @ str_int sc @ '': '') @ ''Non-JSON'' @ '' response from token endpoint''"
    by (simp add: oauth_error_str_def)
  then show ?thesis
    unfolding sublist_def by blast
qed

lemma exchange_never_JSONDecodeError:
  "fst (exchange_code_for_token c code outcome now) \<noteq> Inl JSONDecodeError"
  by (auto simp: exchange_code_for_token_def raise_for_status_def response_json_def Let_def
           split: post_outcome.splits option.splits sum.splits if_splits
           dest!: from_dict_raises)

lemma refresh_never_JSONDecodeError:
  "fst (refresh_access_token c outcome now) \<noteq> Inl JSONDecodeError"
  by (auto simp: refresh_access_token_def raise_for_status_def response_json_def Let_def
           split: post_outcome.splits option.splits sum.splits if_splits
           dest!: from_dict_raises)

lemma exchange_json_not_non_json_error:
  "json response = Some result \<Longrightarrow>
     fst (exchange_code_for_token c code (Response response) now)
       \<noteq> Inl (WithingsOAuthError sc ''Non-JSON response from token endpoint'' None)"
  by (auto simp: exchange_code_for_token_def raise_for_status_def response_json_def Let_def
           split: option.splits sum.splits if_splits
           dest!: from_dict_raises)

lemma refresh_json_not_non_json_error:
  "json response = Some result \<Longrightarrow>
     fst (refresh_access_token c (Response response) now)
       \<noteq> Inl (WithingsOAuthError sc ''Non-JSON response from token endpoint'' None)"
  by (auto simp: refresh_access_token_def raise_for_status_def response_json_def Let_def
           split: option.splits sum.splits if_splits
           dest!: from_dict_raises)

text \<open>
  Claim C7, as the code has it. For an HTTP response that passes \<^verbatim>\<open>raise_for_status\<close> (its
  status code is not in 400..599) and whose body is not JSON, \<^verbatim>\<open>exchange_code_for_token\<close>
  raises \<^verbatim>\<open>WithingsOAuthError(status_code, "Non-JSON response from token endpoint")\<close> and
  leaves the client unchanged, and so does \<^verbatim>\<open>refresh_access_token\<close> when a token with a
  refresh token is held; the text of the exception contains \<^verbatim>\<open>Non-JSON\<close>. That exception
  is never raised for a response that is JSON, and no call lets \<^verbatim>\<open>JSONDecodeError\<close> out.
\<close>

theorem non_json_response_raises_oauth_error:
  assumes "\<not> (400 \<le> status_code response \<and> status_code response < 600)"
    and "json response = None"
  shows "exchange_code_for_token c code (Response response) now
           = (Inl (WithingsOAuthError (status_code response) ''Non-JSON response from token endpoint'' None), c)
       \<and> (\<forall>held. token c = Some held \<and> refresh_token held \<noteq> [] \<longrightarrow>
            refresh_access_token c (Response response) now
              = (Inl (WithingsOAuthError (status_code response) ''Non-JSON response from token endpoint'' None), c))
       \<and> sublist ''Non-JSON'' (oauth_error_str (status_code response) ''Non-JSON response from token endpoint'')
       \<and> (\<forall>response' result sc.
            json response' = Some result \<longrightarrow>
              fst (exchange_code_for_token c code (Response response') now)
                \<noteq> Inl (WithingsOAuthError sc ''Non-JSON response from token endpoint'' None)
              \<and> fst (refresh_access_token c (Response response') now)
                \<noteq> Inl (WithingsOAuthError sc ''Non-JSON response from token endpoint'' None))
       \<and> (\<forall>outcome. fst (exchange_code_for_token c code outcome now) \<noteq> Inl JSONDecodeError
                   \<and> fst (refresh_access_token c outcome now) \<noteq> Inl JSONDecodeError)"
proof (intro conjI allI impI)
  show "exchange_code_for_token c code (Response response) now
          = (Inl (WithingsOAuthError (status_code response) ''Non-JSON response from token endpoint'' None), c)"
    using assms by (simp add: exchange_code_for_token_def raise_for_status_def response_json_def)
next
  fix held
  assume "token c = Some held \<and> refresh_token held \<noteq> []"
  then show "refresh_access_token c (Response response) now
          = (Inl (WithingsOAuthError (status_code response) ''Non-JSON response from token endpoint'' None), c)"
    using assms by (simp add: refresh_access_token_def raise_for_status_def response_json_def)
next
  show "sublist ''Non-JSON'' (oauth_error_str (status_code response) ''Non-JSON response from token endpoint'')"
    by (rule non_json_sublist)
next
  fix response' :: http_response and result sc
  assume "json response' = Some result"
  then show "fst (exchange_code_for_token c code (Response response') now)
                \<noteq> Inl (WithingsOAuthError sc ''Non-JSON response from token endpoint'' None)"
    by (rule exchange_json_not_non_json_error)
next
  fix response' :: http_response and result sc
  assume "json response' = Some result"
  then show "fst (refresh_access_token c (Response response') now)
                \<noteq> Inl (WithingsOAuthError sc ''Non-JSON response from token endpoint'' None)"
    by (rule refresh_json_not_non_json_error)
next
  fix outcome
  show "fst (exchange_code_for_token c code outcome now) \<noteq> Inl JSONDecodeError"
    by (rule exchange_never_JSONDecodeError)
next
  fix outcome
  show "fst (refresh_access_token c outcome now) \<noteq> Inl JSONDecodeError"
    by (rule refresh_never_JSONDecodeError)
qed

theorem non_json_response_raises_oauth_error_witness:
  "exchange_code_for_token example_client ''code'' (Response \<lparr>status_code = 200, json = None\<rparr>) 1000
     = (Inl (WithingsOAuthError 200 ''Non-JSON response from token endpoint'' None), example_client)
   \<and> refresh_access_token (example_client\<lparr>token := Some example_token\<rparr>)
        (Response \<lparr>status_code = 200, json = None\<rparr>) 1000
     = (Inl (WithingsOAuthError 200 ''Non-JSON response from token endpoint'' None),
        example_client\<lparr>token := Some example_token\<rparr>)
   \<and> oauth_error_str 200 ''Non-JSON response from token endpoint''
     = ''OAuth Error 200: Non-JSON response from token endpoint''"
  using non_json_response_raises_oauth_error
          [of "\<lparr>status_code = 200, json = None\<rparr>" example_client "''code''" 1000]
        non_json_response_raises_oauth_error
          [of "\<lparr>status_code = 200, json = None\<rparr>" "example_client\<lparr>token := Some example_token\<rparr>" "''code''" 1000]
  by (simp add: example_token_def oauth_error_str_def str_int_def digit_char_def)

text \<open>
  The claim as stated fails for a response with an HTTP error status: a 502 whose body is
  not JSON raises \<^verbatim>\<open>requests.HTTPError\<close> from \<^verbatim>\<open>raise_for_status\<close>, in both operations.
\<close>

theorem non_json_response_counterexample:
  "exchange_code_for_token example_client ''code'' (Response \<lparr>status_code = 502, json = None\<rparr>) 1000
     = (Inl (HTTPError 502), example_client)
   \<and> refresh_access_token (example_client\<lparr>token := Some example_token\<rparr>)
        (Response \<lparr>status_code = 502, json = None\<rparr>) 1000
     = (Inl (HTTPError 502), example_client\<lparr>token := Some example_token\<rparr>)"
  by (simp add: exchange_code_for_token_def refresh_access_token_def raise_for_status_def
        example_client_def example_token_def)

section \<open>The measurement pagination loop\<close>

lemma process_measures_Cons:
  "process_measures store_hr ts dev grp (m # ms) s =
     (case ms_type m of
        None \<Rightarrow> Inl (KeyError ''type'')
      | Some t \<Rightarrow>
          (case ms_value m of
             None \<Rightarrow> Inl (KeyError ''value'')
           | Some v \<Rightarrow>
               (case ms_unit m of
                  None \<Rightarrow> Inl (KeyError ''unit'')
                | Some u \<Rightarrow> process_measures store_hr ts dev grp ms (stage_measure store_hr ts dev grp t v u s))))"
  by (simp add: stage_measure_def Let_def split: option.splits)

lemma stage_measure_frame:
  "ps_calls (stage_measure store_hr ts dev grp t v u s) = ps_calls s"
  "ps_seen_offsets (stage_measure store_hr ts dev grp t v u s) = ps_seen_offsets s"
  "ps_offset (stage_measure store_hr ts dev grp t v u s) = ps_offset s"
  "ps_warned (stage_measure store_hr ts dev grp t v u s) = ps_warned s"
  by (simp_all add: stage_measure_def Let_def split: option.splits)

lemma process_measures_frame:
  "process_measures store_hr ts dev grp ms s = Inr s' \<Longrightarrow>
     ps_calls s' = ps_calls s \<and> ps_seen_offsets s' = ps_seen_offsets s
     \<and> ps_offset s' = ps_offset s \<and> ps_warned s' = ps_warned s"
proof (induction ms arbitrary: s)
  case Nil
  then show ?case by simp
next
  case (Cons m ms)
  from Cons.prems obtain t v u where
    "process_measures store_hr ts dev grp ms (stage_measure store_hr ts dev grp t v u s) = Inr s'"
    unfolding process_measures_Cons by (auto split: option.splits)
  from Cons.IH [OF this] show ?case
    by (simp add: stage_measure_frame)
qed

lemma process_groups_frame:
  "process_groups P store_hr gs s = Inr s' \<Longrightarrow>
     ps_calls s' = ps_calls s \<and> ps_seen_offsets s' = ps_seen_offsets s
     \<and> ps_offset s' = ps_offset s \<and> ps_warned s' = ps_warned s"
proof (induction gs arbitrary: s)
  case Nil
  then show ?case by simp
next
  case (Cons g gs)
  from Cons.prems obtain d s1 where
    1: "process_measures store_hr (fromtimestamp P d) (mg_deviceid g) (mg_grpid g)
          (case mg_measures g of None \<Rightarrow> [] | Some ms \<Rightarrow> ms) s = Inr s1"
    and 2: "process_groups P store_hr gs s1 = Inr s'"
    by (simp split: option.splits sum.splits)
  from process_measures_frame [OF 1] Cons.IH [OF 2] show ?case
    by simp
qed

lemma page_step_raise:
  "api (length (ps_calls s)) = Inl e \<Longrightarrow>
     page_step P api sd ed hr s = Inl (Some e, s\<lparr>ps_calls := ps_calls s @ [(sd, ed, ps_offset s)]\<rparr>)"
  by (simp add: page_step_def Let_def)

lemma page_step_malformed:
  "api (length (ps_calls s)) = Inr pg \<Longrightarrow>
   process_groups P hr (case pg_measuregrps pg of None \<Rightarrow> [] | Some gs \<Rightarrow> gs)
     (s\<lparr>ps_calls := ps_calls s @ [(sd, ed, ps_offset s)]\<rparr>) = Inl e \<Longrightarrow>
     page_step P api sd ed hr s = Inl (Some e, s\<lparr>ps_calls := ps_calls s @ [(sd, ed, ps_offset s)]\<rparr>)"
  by (simp add: page_step_def Let_def)

lemma page_step_page:
  "api (length (ps_calls s)) = Inr pg \<Longrightarrow>
   process_groups P hr (case pg_measuregrps pg of None \<Rightarrow> [] | Some gs \<Rightarrow> gs)
     (s\<lparr>ps_calls := ps_calls s @ [(sd, ed, ps_offset s)]\<rparr>) = Inr s2 \<Longrightarrow>
     page_step P api sd ed hr s =
       (if pg_more pg \<noteq> Some True then Inl (None, s2)
        else case pg_offset pg of
               None \<Rightarrow> Inl (None, s2\<lparr>ps_offset := None, ps_warned := True\<rparr>)
             | Some off \<Rightarrow>
                 if off \<in> ps_seen_offsets s
                 then Inl (None, s2\<lparr>ps_offset := Some off, ps_warned := True\<rparr>)
                 else Inr (s2\<lparr>ps_offset := Some off,
                              ps_seen_offsets := insert off (ps_seen_offsets s)\<rparr>))"
  by (frule process_groups_frame) (simp add: page_step_def Let_def split: option.splits)

lemma page_step_Inl:
  assumes "page_step P api sd ed hr s = Inl (outc, s')"
  shows "ps_calls s' = ps_calls s @ [(sd, ed, ps_offset s)] \<and> ps_seen_offsets s' = ps_seen_offsets s"
proof (cases "api (length (ps_calls s))")
  case (Inl e)
  from page_step_raise [where api = api and s = s and P = P and sd = sd and ed = ed and hr = hr, OF Inl] assms show ?thesis by simp
next
  case (Inr pg)
  show ?thesis
  proof (cases "process_groups P hr (case pg_measuregrps pg of None \<Rightarrow> [] | Some gs \<Rightarrow> gs)
                  (s\<lparr>ps_calls := ps_calls s @ [(sd, ed, ps_offset s)]\<rparr>)")
    case (Inl e)
    from page_step_malformed [where api = api and s = s and P = P and sd = sd and ed = ed and hr = hr, OF Inr Inl] assms show ?thesis by simp
  next
    case r: (Inr s2)
    from process_groups_frame [OF r] page_step_page [where api = api and s = s and P = P and sd = sd and ed = ed and hr = hr, OF Inr r] assms show ?thesis
      by (auto split: if_splits option.splits)
  qed
qed

lemma page_step_Inr:
  assumes "page_step P api sd ed hr s = Inr s'"
  shows "ps_calls s' = ps_calls s @ [(sd, ed, ps_offset s)]
     \<and> (\<exists>pg off. api (length (ps_calls s)) = Inr pg \<and> pg_more pg = Some True \<and> pg_offset pg = Some off
           \<and> off \<notin> ps_seen_offsets s \<and> ps_seen_offsets s' = insert off (ps_seen_offsets s)
           \<and> ps_offset s' = Some off)"
proof (cases "api (length (ps_calls s))")
  case (Inl e)
  from page_step_raise [where api = api and s = s and P = P and sd = sd and ed = ed and hr = hr, OF Inl] assms show ?thesis by simp
next
  case (Inr pg)
  show ?thesis
  proof (cases "process_groups P hr (case pg_measuregrps pg of None \<Rightarrow> [] | Some gs \<Rightarrow> gs)
                  (s\<lparr>ps_calls := ps_calls s @ [(sd, ed, ps_offset s)]\<rparr>)")
    case (Inl e)
    from page_step_malformed [where api = api and s = s and P = P and sd = sd and ed = ed and hr = hr, OF Inr Inl] assms show ?thesis by simp
  next
    case r: (Inr s2)
    from process_groups_frame [OF r] page_step_page [where api = api and s = s and P = P and sd = sd and ed = ed and hr = hr, OF Inr r] assms Inr show ?thesis
      by (auto split: if_splits option.splits)
  qed
qed

lemma paginate_within_paginate:
  "paginate_within n P api sd ed hr s = Some y \<Longrightarrow> paginate P api sd ed hr s = Some y"
proof (induction n arbitrary: s)
  case 0
  then show ?case by simp
next
  case (Suc n)
  show ?case
  proof (cases "page_step P api sd ed hr s")
    case (Inl outcome)
    with Suc.prems show ?thesis
      by (subst paginate.simps) simp
  next
    case (Inr s')
    with Suc.prems have "paginate_within n P api sd ed hr s' = Some y" by simp
    from Suc.IH [OF this] Inr show ?thesis
      by (subst paginate.simps) simp
  qed
qed

lemma paginate_within_Inl:
  "page_step P api sd ed hr s = Inl y \<Longrightarrow> paginate_within (Suc 0) P api sd ed hr s = Some y"
  by simp

lemma paginate_within_Inr:
  "page_step P api sd ed hr s = Inr s' \<Longrightarrow> paginate_within n P api sd ed hr s' = Some y \<Longrightarrow>
     paginate_within (Suc n) P api sd ed hr s = Some y"
  by simp

lemma paginate_paginate_within:
  assumes "paginate P api sd ed hr s = Some y"
  shows "\<exists>n. paginate_within n P api sd ed hr s = Some y"
proof -
  have "(\<lambda>(((((P, api), sd), ed), hr), s) y. \<exists>n. paginate_within n P api sd ed hr s = Some y)
          (((((P, api), sd), ed), hr), s) y"
  proof (rule paginate.raw_induct [OF _ assms], goal_cases)
    case (1 pag P api sd ed hr s y)
    show ?case
    proof (cases "page_step P api sd ed hr s")
      case (Inl outcome)
      with 1(2) have "paginate_within (Suc 0) P api sd ed hr s = Some y" by simp
      then have "\<exists>n. paginate_within n P api sd ed hr s = Some y" by blast
      then show ?thesis by simp
    next
      case (Inr s')
      with 1(2) have "pag P api sd ed hr s' = Some y" by simp
      from 1(1) [OF this] obtain n where "paginate_within n P api sd ed hr s' = Some y" by auto
      with Inr have "paginate_within (Suc n) P api sd ed hr s = Some y" by simp
      then have "\<exists>n. paginate_within n P api sd ed hr s = Some y" by blast
      then show ?thesis by simp
    qed
  qed
  then show ?thesis by simp
qed

lemma paginate_None_iff:
  "paginate P api sd ed hr s = None \<longleftrightarrow> (\<forall>n. paginate_within n P api sd ed hr s = None)"
proof
  assume n: "paginate P api sd ed hr s = None"
  show "\<forall>n. paginate_within n P api sd ed hr s = None"
  proof (rule allI, rule ccontr)
    fix k
    assume "paginate_within k P api sd ed hr s \<noteq> None"
    then obtain y where "paginate_within k P api sd ed hr s = Some y" by blast
    from paginate_within_paginate [OF this] n show False by simp
  qed
next
  assume a: "\<forall>n. paginate_within n P api sd ed hr s = None"
  show "paginate P api sd ed hr s = None"
  proof (rule ccontr)
    assume "paginate P api sd ed hr s \<noteq> None"
    then obtain y where "paginate P api sd ed hr s = Some y" by blast
    from paginate_paginate_within [OF this] a show False by simp
  qed
qed

lemma paginate_within_bounded:
  assumes "finite offs" "offsets_returned api \<subseteq> offs"
  shows "ps_seen_offsets s \<subseteq> offsets_returned api \<Longrightarrow> card (ps_seen_offsets s) = length (ps_calls s) \<Longrightarrow>
     card offs - card (ps_seen_offsets s) < n \<Longrightarrow>
     \<exists>outc s'. paginate_within n P api sd ed hr s = Some (outc, s')
        \<and> length (ps_calls s') \<le> card offs + 1"
proof (induction n arbitrary: s)
  case 0
  then show ?case by simp
next
  case (Suc n)
  have fin: "finite (ps_seen_offsets s)"
    using Suc.prems(1) assms(2) assms(1) by (meson finite_subset subset_trans)
  have "ps_seen_offsets s \<subseteq> offs"
    using Suc.prems(1) assms(2) by (rule subset_trans)
  then have le: "card (ps_seen_offsets s) \<le> card offs"
    using assms(1) by (simp add: card_mono)
  show ?case
  proof (cases "page_step P api sd ed hr s")
    case (Inl outcome)
    obtain outc s' where o: "outcome = (outc, s')" by (cases outcome)
    from page_step_Inl [OF Inl [unfolded o]] have "length (ps_calls s') = length (ps_calls s) + 1" by simp
    with le Suc.prems(2) have "length (ps_calls s') \<le> card offs + 1" by simp
    with Inl o show ?thesis by simp
  next
    case (Inr s')
    from page_step_Inr [OF Inr] obtain pg off where
      c: "ps_calls s' = ps_calls s @ [(sd, ed, ps_offset s)]" and
      a: "api (length (ps_calls s)) = Inr pg" "pg_offset pg = Some off" and
      n: "off \<notin> ps_seen_offsets s" and i: "ps_seen_offsets s' = insert off (ps_seen_offsets s)"
      by blast
    have mem: "off \<in> offsets_returned api"
      using a by (auto simp: offsets_returned_def)
    have sub: "ps_seen_offsets s' \<subseteq> offsets_returned api"
      using i mem Suc.prems(1) by simp
    have cd: "card (ps_seen_offsets s') = Suc (card (ps_seen_offsets s))"
      using i n fin by simp
    have cl: "card (ps_seen_offsets s') = length (ps_calls s')"
      using cd c Suc.prems(2) by simp
    have "ps_seen_offsets s' \<subseteq> offs"
      using sub assms(2) by (rule subset_trans)
    then have "card (ps_seen_offsets s') \<le> card offs"
      using assms(1) by (simp add: card_mono)
    with cd Suc.prems(3) have "card offs - card (ps_seen_offsets s') < n" by linarith
    from Suc.IH [OF sub cl this] Inr show ?thesis by simp
  qed
qed

lemma fresh_never_ends:
  "(\<forall>x \<in> ps_seen_offsets s. x < int (length (ps_calls s))) \<Longrightarrow>
     paginate_within n P fresh_offsets_api sd ed hr s = None"
proof (induction n arbitrary: s)
  case 0
  then show ?case by simp
next
  case (Suc n)
  have "int (length (ps_calls s)) \<notin> ps_seen_offsets s"
    using Suc.prems by auto
  then have st: "page_step P fresh_offsets_api sd ed hr s =
      Inr (s\<lparr>ps_calls := ps_calls s @ [(sd, ed, ps_offset s)], ps_offset := Some (int (length (ps_calls s))),
             ps_seen_offsets := insert (int (length (ps_calls s))) (ps_seen_offsets s)\<rparr>)"
    by (simp add: page_step_def fresh_offsets_api_def Let_def)
  have "\<forall>x \<in> insert (int (length (ps_calls s))) (ps_seen_offsets s).
          x < int (length (ps_calls s @ [(sd, ed, ps_offset s)]))"
  proof (rule ballI)
    fix x
    assume "x \<in> insert (int (length (ps_calls s))) (ps_seen_offsets s)"
    then have "x \<le> int (length (ps_calls s))"
      using Suc.prems by auto
    then show "x < int (length (ps_calls s @ [(sd, ed, ps_offset s)]))"
      by simp
  qed
  then show ?case
    by (simp add: st Suc.IH)
qed

lemma paginate_guard_stops:
  assumes a: "api (length (ps_calls s)) = Inr pg"
    and g: "process_groups P hr (case pg_measuregrps pg of None \<Rightarrow> [] | Some gs \<Rightarrow> gs)
              (s\<lparr>ps_calls := ps_calls s @ [(sd, ed, ps_offset s)]\<rparr>) = Inr s2"
    and m: "pg_more pg = Some True"
    and o: "pg_offset pg = None \<or> (\<exists>off. pg_offset pg = Some off \<and> off \<in> ps_seen_offsets s)"
  shows "paginate P api sd ed hr s = Some (None, s2\<lparr>ps_offset := pg_offset pg, ps_warned := True\<rparr>)"
proof -
  have "page_step P api sd ed hr s = Inl (None, s2\<lparr>ps_offset := pg_offset pg, ps_warned := True\<rparr>)"
    using page_step_page [where api = api and s = s and P = P and sd = sd and ed = ed and hr = hr, OF a g] m o
    by auto
  then show ?thesis
    by (subst paginate.simps) simp
qed

lemma paginate_bounded:
  assumes "finite (offsets_returned api)"
  shows "\<exists>outc s'. paginate P api sd ed hr initial_pstate = Some (outc, s')
           \<and> length (ps_calls s') \<le> card (offsets_returned api) + 1"
proof -
  have "\<exists>outc s'. paginate_within (Suc (card (offsets_returned api))) P api sd ed hr initial_pstate
                     = Some (outc, s')
           \<and> length (ps_calls s') \<le> card (offsets_returned api) + 1"
    by (rule paginate_within_bounded [OF assms subset_refl]) (simp_all add: initial_pstate_def)
  then show ?thesis
    using paginate_within_paginate by blast
qed

lemma offsets_returned_repeating: "offsets_returned repeating_offset_api = {5}"
  by (auto simp: offsets_returned_def repeating_offset_api_def)

lemma offsets_returned_fresh: "offsets_returned fresh_offsets_api = range int"
  by (auto simp: offsets_returned_def fresh_offsets_api_def)

lemma example_repeating_run:
  "paginate example_platform repeating_offset_api None None True initial_pstate =
     Some (None, \<lparr>ps_measurements = [], ps_heart_rates = [], ps_last_timestamp = None,
                  ps_offset = Some 5, ps_seen_offsets = {5},
                  ps_calls = [(None, None, None), (None, None, Some 5)], ps_warned = True\<rparr>)"
proof -
  have "paginate_within (Suc (Suc 0)) example_platform repeating_offset_api None None True initial_pstate =
     Some (None, \<lparr>ps_measurements = [], ps_heart_rates = [], ps_last_timestamp = None,
                  ps_offset = Some 5, ps_seen_offsets = {5},
                  ps_calls = [(None, None, None), (None, None, Some 5)], ps_warned = True\<rparr>)"
    by (simp add: page_step_def repeating_offset_api_def initial_pstate_def Let_def)
  then show ?thesis
    by (rule paginate_within_paginate)
qed

text \<open>
  Claim C4, as the code has it. When the vendor returns only finitely many distinct
  offsets, the pagination loop ends, after at most one request more than there are
  distinct offsets. A page that declares \<^verbatim>\<open>more = true\<close> and has no offset, or an offset
  already seen in this session, ends the loop at once with the warning logged: the state
  returned has exactly the one request of this iteration added.
\<close>

theorem pagination_bounded_by_distinct_offsets:
  assumes "finite (offsets_returned api)"
  shows "(\<exists>outc s'. paginate P api sd ed hr initial_pstate = Some (outc, s')
            \<and> length (ps_calls s') \<le> card (offsets_returned api) + 1)
       \<and> (\<forall>s pg s2.
             api (length (ps_calls s)) = Inr pg
             \<and> process_groups P hr (case pg_measuregrps pg of None \<Rightarrow> [] | Some gs \<Rightarrow> gs)
                   (s\<lparr>ps_calls := ps_calls s @ [(sd, ed, ps_offset s)]\<rparr>) = Inr s2
             \<and> pg_more pg = Some True
             \<and> (pg_offset pg = None \<or> (\<exists>off. pg_offset pg = Some off \<and> off \<in> ps_seen_offsets s))
           \<longrightarrow> paginate P api sd ed hr s = Some (None, s2\<lparr>ps_offset := pg_offset pg, ps_warned := True\<rparr>)
               \<and> ps_calls s2 = ps_calls s @ [(sd, ed, ps_offset s)])"
proof (intro conjI allI impI)
  show "\<exists>outc s'. paginate P api sd ed hr initial_pstate = Some (outc, s')
            \<and> length (ps_calls s') \<le> card (offsets_returned api) + 1"
    by (rule paginate_bounded [OF assms])
next
  fix s pg s2
  assume h: "api (length (ps_calls s)) = Inr pg
             \<and> process_groups P hr (case pg_measuregrps pg of None \<Rightarrow> [] | Some gs \<Rightarrow> gs)
                   (s\<lparr>ps_calls := ps_calls s @ [(sd, ed, ps_offset s)]\<rparr>) = Inr s2
             \<and> pg_more pg = Some True
             \<and> (pg_offset pg = None \<or> (\<exists>off. pg_offset pg = Some off \<and> off \<in> ps_seen_offsets s))"
  then show "paginate P api sd ed hr s = Some (None, s2\<lparr>ps_offset := pg_offset pg, ps_warned := True\<rparr>)"
    using paginate_guard_stops [of api s pg P hr sd ed s2] by blast
next
  fix s pg s2
  assume h: "api (length (ps_calls s)) = Inr pg
             \<and> process_groups P hr (case pg_measuregrps pg of None \<Rightarrow> [] | Some gs \<Rightarrow> gs)
                   (s\<lparr>ps_calls := ps_calls s @ [(sd, ed, ps_offset s)]\<rparr>) = Inr s2
             \<and> pg_more pg = Some True
             \<and> (pg_offset pg = None \<or> (\<exists>off. pg_offset pg = Some off \<and> off \<in> ps_seen_offsets s))"
  then show "ps_calls s2 = ps_calls s @ [(sd, ed, ps_offset s)]"
    using process_groups_frame by fastforce
qed

theorem pagination_bounded_by_distinct_offsets_witness:
  "finite (offsets_returned repeating_offset_api)
   \<and> card (offsets_returned repeating_offset_api) = 1
   \<and> paginate example_platform repeating_offset_api None None True initial_pstate =
       Some (None, \<lparr>ps_measurements = [], ps_heart_rates = [], ps_last_timestamp = None,
                    ps_offset = Some 5, ps_seen_offsets = {5},
                    ps_calls = [(None, None, None), (None, None, Some 5)], ps_warned = True\<rparr>)"
proof -
  have f: "finite (offsets_returned repeating_offset_api)"
    by (simp add: offsets_returned_repeating)
  from pagination_bounded_by_distinct_offsets [OF f, of example_platform None None True]
  show ?thesis
    by (simp add: offsets_returned_repeating example_repeating_run)
qed

text \<open>
  The claim as stated fails for a vendor that returns a new offset with every page: every
  page declares \<^verbatim>\<open>more = true\<close> with an offset not seen before, and the loop never ends.
\<close>

theorem pagination_never_ends_counterexample:
  "paginate example_platform fresh_offsets_api None None True initial_pstate = None
   \<and> infinite (offsets_returned fresh_offsets_api)"
proof
  have "\<forall>n. paginate_within n example_platform fresh_offsets_api None None True initial_pstate = None"
    by (simp add: fresh_never_ends initial_pstate_def)
  then show "paginate example_platform fresh_offsets_api None None True initial_pstate = None"
    by (simp add: paginate_None_iff)
next
  show "infinite (offsets_returned fresh_offsets_api)"
  proof
    assume "finite (offsets_returned fresh_offsets_api)"
    then have "finite (range int)"
      by (simp add: offsets_returned_fresh)
    then have "finite (UNIV :: nat set)"
      by (rule finite_imageD) simp
    then show False
      by simp
  qed
qed

section \<open>The chunking loops of the activity and sleep fetches\<close>


lemma chunk_bounds_done: "\<not> c < e \<Longrightarrow> chunk_bounds c e = []"
  by (subst chunk_bounds.simps) simp

lemma chunk_bounds_step:
  "c < e \<Longrightarrow> chunk_bounds c e =
     (c, min (c + timedelta_days MAX_DAYS_PER_REQUEST) e)
       # chunk_bounds (min (c + timedelta_days MAX_DAYS_PER_REQUEST) e) e"
  by (subst chunk_bounds.simps) simp





lemma activity_loop_done:
  "\<not> c < e \<Longrightarrow> activity_loop P api c e acc calls = (Inr acc, calls)"
  by (subst activity_loop.simps) simp

lemma activity_loop_skip:
  "c < e \<Longrightarrow> api (length calls) = Inl ex \<Longrightarrow> is_WithingsAPIError ex \<Longrightarrow>
     activity_loop P api c e acc calls =
       activity_loop P api (min (c + timedelta_days MAX_DAYS_PER_REQUEST) e) e acc
         (calls @ [chunk_call_of P (c, min (c + timedelta_days MAX_DAYS_PER_REQUEST) e)])"
  by (subst activity_loop.simps) (simp add: Let_def chunk_call_of_def)

lemma activity_loop_abort:
  "c < e \<Longrightarrow> api (length calls) = Inl ex \<Longrightarrow> \<not> is_WithingsAPIError ex \<Longrightarrow>
     activity_loop P api c e acc calls =
       (Inl ex, calls @ [chunk_call_of P (c, min (c + timedelta_days MAX_DAYS_PER_REQUEST) e)])"
  by (subst activity_loop.simps) (simp add: Let_def chunk_call_of_def)

lemma activity_loop_malformed:
  "c < e \<Longrightarrow> api (length calls) = Inr r \<Longrightarrow>
   convert_activities P (case r of None \<Rightarrow> [] | Some l \<Rightarrow> l) = Inl ex \<Longrightarrow>
     activity_loop P api c e acc calls =
       (Inl ex, calls @ [chunk_call_of P (c, min (c + timedelta_days MAX_DAYS_PER_REQUEST) e)])"
  by (subst activity_loop.simps) (simp add: Let_def chunk_call_of_def)

lemma activity_loop_rows:
  "c < e \<Longrightarrow> api (length calls) = Inr r \<Longrightarrow>
   convert_activities P (case r of None \<Rightarrow> [] | Some l \<Rightarrow> l) = Inr rows \<Longrightarrow>
     activity_loop P api c e acc calls =
       activity_loop P api (min (c + timedelta_days MAX_DAYS_PER_REQUEST) e) e (acc @ rows)
         (calls @ [chunk_call_of P (c, min (c + timedelta_days MAX_DAYS_PER_REQUEST) e)])"
  by (subst activity_loop.simps) (simp add: Let_def chunk_call_of_def)


lemma activity_loop_batch:
  "fst (activity_loop P api c e acc calls) = Inr rows \<Longrightarrow>
     rows = acc @ concat (map (activity_chunk_rows P api)
                            [length calls ..< length calls + length (chunk_bounds c e)])"
proof (induction c e arbitrary: acc calls rule: chunk_bounds.induct)
  case (1 c e)
  let ?ce = "min (c + timedelta_days MAX_DAYS_PER_REQUEST) e"
  let ?calls = "calls @ [chunk_call_of P (c, ?ce)]"
  show ?case
  proof (cases "c < e")
    case False
    with "1.prems" show ?thesis
      by (simp add: activity_loop_done chunk_bounds_done)
  next
    case True
    note cb = chunk_bounds_step [OF True]
    have "[length calls ..< length calls + length (chunk_bounds c e)]
            = length calls # [Suc (length calls) ..< length calls + length (chunk_bounds c e)]"
      by (rule upt_conv_Cons) (simp add: cb)
    then have up: "[length calls ..< length calls + length (chunk_bounds c e)]
                = length calls # [length ?calls ..< length ?calls + length (chunk_bounds ?ce e)]"
      by (simp add: cb)
    show ?thesis
    proof (cases "api (length calls)")
      case (Inl ex)
      show ?thesis
      proof (cases "is_WithingsAPIError ex")
        case w: True
        from "1.prems" have "fst (activity_loop P api ?ce e acc ?calls) = Inr rows"
          by (simp add: activity_loop_skip [where api = api and calls = calls and c = c and e = e, OF True Inl w])
        from "1.IH" [OF True this] show ?thesis
          by (simp add: up activity_chunk_rows_def Inl)
      next
        case False
        with "1.prems" show ?thesis
          by (simp add: activity_loop_abort [where api = api and calls = calls and c = c and e = e, OF True Inl False])
      qed
    next
      case (Inr r)
      show ?thesis
      proof (cases "convert_activities P (case r of None \<Rightarrow> [] | Some l \<Rightarrow> l)")
        case (Inl ex)
        with "1.prems" show ?thesis
          by (simp add: activity_loop_malformed [where api = api and calls = calls and c = c and e = e, OF True Inr Inl])
      next
        case rs: (Inr chunk)
        from "1.prems" have "fst (activity_loop P api ?ce e (acc @ chunk) ?calls) = Inr rows"
          by (simp add: activity_loop_rows [where api = api and calls = calls and c = c and e = e, OF True Inr rs])
        from "1.IH" [OF True this] show ?thesis
          by (simp add: up activity_chunk_rows_def Inr rs)
      qed
    qed
  qed
qed

lemma activity_loop_completes:
  assumes "\<forall>n. (\<forall>ex. api n = Inl ex \<longrightarrow> is_WithingsAPIError ex)
             \<and> (\<forall>r. api n = Inr r \<longrightarrow> (\<exists>rows. convert_activities P (case r of None \<Rightarrow> [] | Some l \<Rightarrow> l) = Inr rows))"
  shows "\<exists>rows. fst (activity_loop P api c e acc calls) = Inr rows"
proof (induction c e arbitrary: acc calls rule: chunk_bounds.induct)
  case (1 c e)
  let ?ce = "min (c + timedelta_days MAX_DAYS_PER_REQUEST) e"
  show ?case
  proof (cases "c < e")
    case False
    then show ?thesis
      by (simp add: activity_loop_done)
  next
    case True
    show ?thesis
    proof (cases "api (length calls)")
      case (Inl ex)
      with assms have w: "is_WithingsAPIError ex" by blast
      show ?thesis
        unfolding activity_loop_skip [where api = api and calls = calls and c = c and e = e, OF True Inl w] by (rule "1.IH" [OF True])
    next
      case (Inr r)
      with assms obtain chunk where
        rs: "convert_activities P (case r of None \<Rightarrow> [] | Some l \<Rightarrow> l) = Inr chunk" by blast
      show ?thesis
        unfolding activity_loop_rows [where api = api and calls = calls and c = c and e = e, OF True Inr rs] by (rule "1.IH" [OF True])
    qed
  qed
qed

lemma sleep_loop_done:
  "\<not> c < e \<Longrightarrow> sleep_loop P api c e acc calls = (Inr acc, calls)"
  by (subst sleep_loop.simps) simp

lemma sleep_loop_skip:
  "c < e \<Longrightarrow> api (length calls) = Inl ex \<Longrightarrow> is_WithingsAPIError ex \<Longrightarrow>
     sleep_loop P api c e acc calls =
       sleep_loop P api (min (c + timedelta_days MAX_DAYS_PER_REQUEST) e) e acc
         (calls @ [chunk_call_of P (c, min (c + timedelta_days MAX_DAYS_PER_REQUEST) e)])"
  by (subst sleep_loop.simps) (simp add: Let_def chunk_call_of_def)

lemma sleep_loop_abort:
  "c < e \<Longrightarrow> api (length calls) = Inl ex \<Longrightarrow> \<not> is_WithingsAPIError ex \<Longrightarrow>
     sleep_loop P api c e acc calls =
       (Inl ex, calls @ [chunk_call_of P (c, min (c + timedelta_days MAX_DAYS_PER_REQUEST) e)])"
  by (subst sleep_loop.simps) (simp add: Let_def chunk_call_of_def)

lemma sleep_loop_malformed:
  "c < e \<Longrightarrow> api (length calls) = Inr r \<Longrightarrow>
   convert_sleeps P (case r of None \<Rightarrow> [] | Some l \<Rightarrow> l) = Inl ex \<Longrightarrow>
     sleep_loop P api c e acc calls =
       (Inl ex, calls @ [chunk_call_of P (c, min (c + timedelta_days MAX_DAYS_PER_REQUEST) e)])"
  by (subst sleep_loop.simps) (simp add: Let_def chunk_call_of_def)

lemma sleep_loop_rows:
  "c < e \<Longrightarrow> api (length calls) = Inr r \<Longrightarrow>
   convert_sleeps P (case r of None \<Rightarrow> [] | Some l \<Rightarrow> l) = Inr rows \<Longrightarrow>
     sleep_loop P api c e acc calls =
       sleep_loop P api (min (c + timedelta_days MAX_DAYS_PER_REQUEST) e) e (acc @ rows)
         (calls @ [chunk_call_of P (c, min (c + timedelta_days MAX_DAYS_PER_REQUEST) e)])"
  by (subst sleep_loop.simps) (simp add: Let_def chunk_call_of_def)


lemma sleep_loop_batch:
  "fst (sleep_loop P api c e acc calls) = Inr rows \<Longrightarrow>
     rows = acc @ concat (map (sleep_chunk_rows P api)
                            [length calls ..< length calls + length (chunk_bounds c e)])"
proof (induction c e arbitrary: acc calls rule: chunk_bounds.induct)
  case (1 c e)
  let ?ce = "min (c + timedelta_days MAX_DAYS_PER_REQUEST) e"
  let ?calls = "calls @ [chunk_call_of P (c, ?ce)]"
  show ?case
  proof (cases "c < e")
    case False
    with "1.prems" show ?thesis
      by (simp add: sleep_loop_done chunk_bounds_done)
  next
    case True
    note cb = chunk_bounds_step [OF True]
    have "[length calls ..< length calls + length (chunk_bounds c e)]
            = length calls # [Suc (length calls) ..< length calls + length (chunk_bounds c e)]"
      by (rule upt_conv_Cons) (simp add: cb)
    then have up: "[length calls ..< length calls + length (chunk_bounds c e)]
                = length calls # [length ?calls ..< length ?calls + length (chunk_bounds ?ce e)]"
      by (simp add: cb)
    show ?thesis
    proof (cases "api (length calls)")
      case (Inl ex)
      show ?thesis
      proof (cases "is_WithingsAPIError ex")
        case w: True
        from "1.prems" have "fst (sleep_loop P api ?ce e acc ?calls) = Inr rows"
          by (simp add: sleep_loop_skip [where api = api and calls = calls and c = c and e = e, OF True Inl w])
        from "1.IH" [OF True this] show ?thesis
          by (simp add: up sleep_chunk_rows_def Inl)
      next
        case False
        with "1.prems" show ?thesis
          by (simp add: sleep_loop_abort [where api = api and calls = calls and c = c and e = e, OF True Inl False])
      qed
    next
      case (Inr r)
      show ?thesis
      proof (cases "convert_sleeps P (case r of None \<Rightarrow> [] | Some l \<Rightarrow> l)")
        case (Inl ex)
        with "1.prems" show ?thesis
          by (simp add: sleep_loop_malformed [where api = api and calls = calls and c = c and e = e, OF True Inr Inl])
      next
        case rs: (Inr chunk)
        from "1.prems" have "fst (sleep_loop P api ?ce e (acc @ chunk) ?calls) = Inr rows"
          by (simp add: sleep_loop_rows [where api = api and calls = calls and c = c and e = e, OF True Inr rs])
        from "1.IH" [OF True this] show ?thesis
          by (simp add: up sleep_chunk_rows_def Inr rs)
      qed
    qed
  qed
qed

lemma sleep_loop_completes:
  assumes "\<forall>n. (\<forall>ex. api n = Inl ex \<longrightarrow> is_WithingsAPIError ex)
             \<and> (\<forall>r. api n = Inr r \<longrightarrow> (\<exists>rows. convert_sleeps P (case r of None \<Rightarrow> [] | Some l \<Rightarrow> l) = Inr rows))"
  shows "\<exists>rows. fst (sleep_loop P api c e acc calls) = Inr rows"
proof (induction c e arbitrary: acc calls rule: chunk_bounds.induct)
  case (1 c e)
  let ?ce = "min (c + timedelta_days MAX_DAYS_PER_REQUEST) e"
  show ?case
  proof (cases "c < e")
    case False
    then show ?thesis
      by (simp add: sleep_loop_done)
  next
    case True
    show ?thesis
    proof (cases "api (length calls)")
      case (Inl ex)
      with assms have w: "is_WithingsAPIError ex" by blast
      show ?thesis
        unfolding sleep_loop_skip [where api = api and calls = calls and c = c and e = e, OF True Inl w] by (rule "1.IH" [OF True])
    next
      case (Inr r)
      with assms obtain chunk where
        rs: "convert_sleeps P (case r of None \<Rightarrow> [] | Some l \<Rightarrow> l) = Inr chunk" by blast
      show ?thesis
        unfolding sleep_loop_rows [where api = api and calls = calls and c = c and e = e, OF True Inr rs] by (rule "1.IH" [OF True])
    qed
  qed
qed


























section \<open>The sync cursor after a fetch\<close>

lemma get_sync_state_update:
  "get_sync_state (update_sync_state st t ts status now) t'
     = (if t' = t then Some \<lparr>sr_last_sync = now, sr_last_data_timestamp = ts, sr_status = status\<rparr>
        else get_sync_state st t')"
  by (simp add: get_sync_state_def update_sync_state_def)


lemma activity_loop_no_rows:
  assumes "\<forall>n. api n = Inr None \<or> api n = Inr (Some []) \<or> (\<exists>ex. api n = Inl ex \<and> is_WithingsAPIError ex)"
  shows "fst (activity_loop P api c e [] []) = Inr []"
proof -
  have r: "activity_chunk_rows P api n = []" for n
    using assms [rule_format, of n] by (auto simp: activity_chunk_rows_def)
  have "\<forall>n. (\<forall>ex. api n = Inl ex \<longrightarrow> is_WithingsAPIError ex)
             \<and> (\<forall>r. api n = Inr r \<longrightarrow> (\<exists>rows. convert_activities P (case r of None \<Rightarrow> [] | Some l \<Rightarrow> l) = Inr rows))"
  proof
    fix n
    from assms [rule_format, of n]
    show "(\<forall>ex. api n = Inl ex \<longrightarrow> is_WithingsAPIError ex)
             \<and> (\<forall>r. api n = Inr r \<longrightarrow> (\<exists>rows. convert_activities P (case r of None \<Rightarrow> [] | Some l \<Rightarrow> l) = Inr rows))"
      by auto
  qed
  from activity_loop_completes [OF this, of c e "[]" "[]"]
  obtain rows where rows: "fst (activity_loop P api c e [] []) = Inr rows"
    by blast
  from activity_loop_batch [OF rows] have "rows = []"
    by (simp add: r)
  with rows show ?thesis
    by simp
qed

lemma sleep_loop_no_rows:
  assumes "\<forall>n. api n = Inr None \<or> api n = Inr (Some []) \<or> (\<exists>ex. api n = Inl ex \<and> is_WithingsAPIError ex)"
  shows "fst (sleep_loop P api c e [] []) = Inr []"
proof -
  have r: "sleep_chunk_rows P api n = []" for n
    using assms [rule_format, of n] by (auto simp: sleep_chunk_rows_def)
  have "\<forall>n. (\<forall>ex. api n = Inl ex \<longrightarrow> is_WithingsAPIError ex)
             \<and> (\<forall>r. api n = Inr r \<longrightarrow> (\<exists>rows. convert_sleeps P (case r of None \<Rightarrow> [] | Some l \<Rightarrow> l) = Inr rows))"
  proof
    fix n
    from assms [rule_format, of n]
    show "(\<forall>ex. api n = Inl ex \<longrightarrow> is_WithingsAPIError ex)
             \<and> (\<forall>r. api n = Inr r \<longrightarrow> (\<exists>rows. convert_sleeps P (case r of None \<Rightarrow> [] | Some l \<Rightarrow> l) = Inr rows))"
      by auto
  qed
  from sleep_loop_completes [OF this, of c e "[]" "[]"]
  obtain rows where rows: "fst (sleep_loop P api c e [] []) = Inr rows"
    by blast
  from sleep_loop_batch [OF rows] have "rows = []"
    by (simp add: r)
  with rows show ?thesis
    by simp
qed

lemma fetch_activity_no_rows:
  assumes "\<forall>n. api n = Inr None \<or> api n = Inr (Some []) \<or> (\<exists>ex. api n = Inl ex \<and> is_WithingsAPIError ex)"
  shows "fetch_activity P api st start_date end_date now
           = update_sync_state st ''activity'' None ''success'' now"
  by (simp add: fetch_activity_def fetch_activity_try_def Let_def activity_loop_no_rows [OF assms])

lemma fetch_sleep_no_rows:
  assumes "\<forall>n. api n = Inr None \<or> api n = Inr (Some []) \<or> (\<exists>ex. api n = Inl ex \<and> is_WithingsAPIError ex)"
  shows "fetch_sleep P api st start_date end_date now
           = update_sync_state st ''sleep'' None ''success'' now"
  by (simp add: fetch_sleep_def fetch_sleep_try_def Let_def sleep_loop_no_rows [OF assms])

lemma paginate_empty_page:
  "paginate P empty_measure_api sd ed hr initial_pstate
     = Some (None, initial_pstate\<lparr>ps_calls := [(sd, ed, None)]\<rparr>)"
proof -
  have "paginate_within (Suc 0) P empty_measure_api sd ed hr initial_pstate
          = Some (None, initial_pstate\<lparr>ps_calls := [(sd, ed, None)]\<rparr>)"
    by (simp add: page_step_def empty_measure_api_def initial_pstate_def Let_def)
  then show ?thesis
    by (rule paginate_within_paginate)
qed

lemma fetch_measurements_no_rows:
  "fetch_measurements P empty_measure_api st start_date end_date store_hr now
     = Some (update_sync_state st ''measurements'' None ''success'' now)"
  unfolding fetch_measurements_def fetch_measurements_try_def Let_def paginate_empty_page
  by (simp add: initial_pstate_def)

lemma synced_cursor:
  "get_sync_state synced_storage ''measurements'' = Some synced_row"
  "get_sync_state synced_storage ''activity'' = Some synced_row"
  "get_sync_state synced_storage ''sleep'' = Some synced_row"
  by (simp_all add: get_sync_state_def synced_storage_def empty_storage_def)

text \<open>
  Claim C5 on the code. A sync that finds nothing new after a successful one: the cursor of
  each data type held the last data timestamp of 19 July 2024; after a fetch that returns no
  records the status is \<^verbatim>\<open>success\<close>, but the last data timestamp is gone (\<^verbatim>\<open>NULL\<close>):
  \<^verbatim>\<open>update_sync_state(data_type, status='success')\<close> replaces the whole row, with the
  default \<^verbatim>\<open>None\<close> for the timestamp. This holds whatever the range and the clock.
\<close>

theorem empty_fetch_erases_last_data_timestamp:
  "map_option sr_last_data_timestamp (get_sync_state synced_storage ''measurements'')
     = Some (Some (midnight 2024 7 19))
   \<and> map_option sr_last_data_timestamp (get_sync_state synced_storage ''activity'')
     = Some (Some (midnight 2024 7 19))
   \<and> map_option sr_last_data_timestamp (get_sync_state synced_storage ''sleep'')
     = Some (Some (midnight 2024 7 19))
   \<and> map_option (\<lambda>st. get_sync_state st ''measurements'')
        (fetch_measurements P empty_measure_api synced_storage start_date end_date store_hr now)
     = Some (Some \<lparr>sr_last_sync = now, sr_last_data_timestamp = None, sr_status = ''success''\<rparr>)
   \<and> get_sync_state (fetch_activity P empty_activity_api synced_storage start_date' end_date' now)
        ''activity''
     = Some \<lparr>sr_last_sync = now, sr_last_data_timestamp = None, sr_status = ''success''\<rparr>
   \<and> get_sync_state (fetch_sleep P empty_sleep_api synced_storage start_date' end_date' now)
        ''sleep''
     = Some \<lparr>sr_last_sync = now, sr_last_data_timestamp = None, sr_status = ''success''\<rparr>"
proof -
  have a: "\<forall>n. empty_activity_api n = Inr None \<or> empty_activity_api n = Inr (Some [])
             \<or> (\<exists>ex. empty_activity_api n = Inl ex \<and> is_WithingsAPIError ex)"
    by (simp add: empty_activity_api_def)
  have s: "\<forall>n. empty_sleep_api n = Inr None \<or> empty_sleep_api n = Inr (Some [])
             \<or> (\<exists>ex. empty_sleep_api n = Inl ex \<and> is_WithingsAPIError ex)"
    by (simp add: empty_sleep_api_def)
  show ?thesis
    by (simp add: synced_cursor synced_row_def fetch_measurements_no_rows
          fetch_activity_no_rows [OF a] fetch_sleep_no_rows [OF s] get_sync_state_update)
qed


















section \<open>Heart-rate measures in the measurement fetch\<close>

lemma stage_measure_lists:
  "ps_measurements (stage_measure hr ts dev grp t v u s)
     = ps_measurements s @ [staged_measurement ts dev grp t v u]"
  "ps_heart_rates (stage_measure hr ts dev grp t v u s)
     = ps_heart_rates s @ (if hr \<and> t = 11 then [staged_heart_rate ts dev grp t v u] else [])"
  by (simp_all add: stage_measure_def staged_measurement_def staged_heart_rate_def Let_def
        split: option.splits)

lemma process_measures_staged:
  "process_measures hr ts dev grp ms s = Inr s' \<Longrightarrow>
     set (ps_measurements s) \<subseteq> set (ps_measurements s')
     \<and> set (ps_heart_rates s) \<subseteq> set (ps_heart_rates s')
     \<and> (\<not> hr \<longrightarrow> ps_heart_rates s' = ps_heart_rates s)
     \<and> (\<forall>m \<in> set ms.
           \<exists>t v u. ms_type m = Some t \<and> ms_value m = Some v \<and> ms_unit m = Some u
             \<and> staged_measurement ts dev grp t v u \<in> set (ps_measurements s')
             \<and> (hr \<and> t = 11 \<longrightarrow> staged_heart_rate ts dev grp t v u \<in> set (ps_heart_rates s')))"
proof (induction ms arbitrary: s)
  case Nil
  then show ?case by simp
next
  case (Cons m ms)
  from Cons.prems obtain t v u where
    f: "ms_type m = Some t" "ms_value m = Some v" "ms_unit m = Some u"
    and r: "process_measures hr ts dev grp ms (stage_measure hr ts dev grp t v u s) = Inr s'"
    unfolding process_measures_Cons by (auto split: option.splits)
  let ?s1 = "stage_measure hr ts dev grp t v u s"
  note ih = Cons.IH [OF r]
  have a: "set (ps_measurements s) \<subseteq> set (ps_measurements ?s1)"
    "set (ps_heart_rates s) \<subseteq> set (ps_heart_rates ?s1)"
    "staged_measurement ts dev grp t v u \<in> set (ps_measurements ?s1)"
    "hr \<and> t = 11 \<longrightarrow> staged_heart_rate ts dev grp t v u \<in> set (ps_heart_rates ?s1)"
    "\<not> hr \<longrightarrow> ps_heart_rates ?s1 = ps_heart_rates s"
    by (auto simp: stage_measure_lists)
  have 1: "set (ps_measurements s) \<subseteq> set (ps_measurements s')"
    using a(1) ih by blast
  have 2: "set (ps_heart_rates s) \<subseteq> set (ps_heart_rates s')"
    using a(2) ih by blast
  have 3: "\<not> hr \<longrightarrow> ps_heart_rates s' = ps_heart_rates s"
    using a(5) ih by simp
  have 4: "\<exists>t v u. ms_type m = Some t \<and> ms_value m = Some v \<and> ms_unit m = Some u
             \<and> staged_measurement ts dev grp t v u \<in> set (ps_measurements s')
             \<and> (hr \<and> t = 11 \<longrightarrow> staged_heart_rate ts dev grp t v u \<in> set (ps_heart_rates s'))"
    using f a(3,4) ih by blast
  from 1 2 3 4 ih show ?case
    by simp
qed

lemma group_staged_mono:
  "group_staged P hr g s \<Longrightarrow> set (ps_measurements s) \<subseteq> set (ps_measurements s') \<Longrightarrow>
   set (ps_heart_rates s) \<subseteq> set (ps_heart_rates s') \<Longrightarrow> group_staged P hr g s'"
  unfolding group_staged_def by blast

lemma process_groups_staged:
  "process_groups P hr gs s = Inr s' \<Longrightarrow>
     set (ps_measurements s) \<subseteq> set (ps_measurements s')
     \<and> set (ps_heart_rates s) \<subseteq> set (ps_heart_rates s')
     \<and> (\<not> hr \<longrightarrow> ps_heart_rates s' = ps_heart_rates s)
     \<and> (\<forall>g \<in> set gs. group_staged P hr g s')"
proof (induction gs arbitrary: s)
  case Nil
  then show ?case by simp
next
  case (Cons g gs)
  from Cons.prems obtain d s1 where
    d: "mg_date g = Some d"
    and m: "process_measures hr (fromtimestamp P d) (mg_deviceid g) (mg_grpid g)
              (case mg_measures g of None \<Rightarrow> [] | Some ms \<Rightarrow> ms) s = Inr s1"
    and r: "process_groups P hr gs s1 = Inr s'"
    by (auto split: option.splits sum.splits)
  note pm = process_measures_staged [OF m]
  note ih = Cons.IH [OF r]
  from d pm have "group_staged P hr g s1"
    unfolding group_staged_def by blast
  with ih have g: "group_staged P hr g s'"
    by (blast intro: group_staged_mono)
  have 1: "set (ps_measurements s) \<subseteq> set (ps_measurements s')"
    using pm ih by blast
  have 2: "set (ps_heart_rates s) \<subseteq> set (ps_heart_rates s')"
    using pm ih by blast
  have 3: "\<not> hr \<longrightarrow> ps_heart_rates s' = ps_heart_rates s"
    using pm ih by simp
  from 1 2 3 g ih show ?case
    by simp
qed

lemma page_step_staged:
  assumes "page_step P api sd ed hr s = Inl (None, s') \<or> page_step P api sd ed hr s = Inr s'"
  shows "\<exists>pg. api (length (ps_calls s)) = Inr pg
           \<and> set (ps_measurements s) \<subseteq> set (ps_measurements s')
           \<and> set (ps_heart_rates s) \<subseteq> set (ps_heart_rates s')
           \<and> (\<not> hr \<longrightarrow> ps_heart_rates s' = ps_heart_rates s)
           \<and> (\<forall>g \<in> set (case pg_measuregrps pg of None \<Rightarrow> [] | Some gs \<Rightarrow> gs). group_staged P hr g s')"
proof (cases "api (length (ps_calls s))")
  case (Inl e)
  from page_step_raise [where api = api and s = s and P = P and sd = sd and ed = ed and hr = hr, OF Inl]
    assms show ?thesis
    by simp
next
  case (Inr pg)
  let ?s1 = "s\<lparr>ps_calls := ps_calls s @ [(sd, ed, ps_offset s)]\<rparr>"
  let ?gs = "case pg_measuregrps pg of None \<Rightarrow> [] | Some gs \<Rightarrow> gs"
  show ?thesis
  proof (cases "process_groups P hr ?gs ?s1")
    case (Inl e)
    from page_step_malformed [where api = api and s = s and P = P and sd = sd and ed = ed and hr = hr,
            OF Inr Inl] assms
    show ?thesis
      by simp
  next
    case g: (Inr s2)
    note st = process_groups_staged [OF g]
    note ps = page_step_page [where api = api and s = s and P = P and sd = sd and ed = ed and hr = hr,
                OF Inr g]
    from assms ps have l: "ps_measurements s' = ps_measurements s2 \<and> ps_heart_rates s' = ps_heart_rates s2"
      by (auto split: if_splits option.splits)
    have gs: "\<forall>g \<in> set ?gs. group_staged P hr g s'"
    proof
      fix x
      assume "x \<in> set ?gs"
      with st have "group_staged P hr x s2"
        by blast
      then show "group_staged P hr x s'"
        by (rule group_staged_mono) (simp_all add: l)
    qed
    from st l have "set (ps_measurements s) \<subseteq> set (ps_measurements s')"
      "set (ps_heart_rates s) \<subseteq> set (ps_heart_rates s')"
      "\<not> hr \<longrightarrow> ps_heart_rates s' = ps_heart_rates s"
      by simp_all
    with Inr gs show ?thesis
      by blast
  qed
qed

lemma paginate_within_staged:
  "paginate_within n P api sd ed hr s = Some (None, s') \<Longrightarrow>
     length (ps_calls s) < length (ps_calls s')
     \<and> set (ps_measurements s) \<subseteq> set (ps_measurements s')
     \<and> set (ps_heart_rates s) \<subseteq> set (ps_heart_rates s')
     \<and> (\<not> hr \<longrightarrow> ps_heart_rates s' = ps_heart_rates s)
     \<and> (\<forall>k. length (ps_calls s) \<le> k \<and> k < length (ps_calls s') \<longrightarrow>
           (\<exists>pg. api k = Inr pg
              \<and> (\<forall>g \<in> set (case pg_measuregrps pg of None \<Rightarrow> [] | Some gs \<Rightarrow> gs).
                    group_staged P hr g s')))"
proof (induction n arbitrary: s)
  case 0
  then show ?case by simp
next
  case (Suc n)
  show ?case
  proof (cases "page_step P api sd ed hr s")
    case (Inl y)
    with Suc.prems have y: "page_step P api sd ed hr s = Inl (None, s')"
      by simp
    from page_step_Inl [OF y] have c: "ps_calls s' = ps_calls s @ [(sd, ed, ps_offset s)]"
      by simp
    from page_step_staged [where api = api and s = s and P = P and sd = sd and ed = ed and hr = hr
            and s' = s'] y
    obtain pg where pg: "api (length (ps_calls s)) = Inr pg"
      "set (ps_measurements s) \<subseteq> set (ps_measurements s')"
      "set (ps_heart_rates s) \<subseteq> set (ps_heart_rates s')"
      "\<not> hr \<longrightarrow> ps_heart_rates s' = ps_heart_rates s"
      "\<forall>g \<in> set (case pg_measuregrps pg of None \<Rightarrow> [] | Some gs \<Rightarrow> gs). group_staged P hr g s'"
      by blast
    have "\<exists>pg. api k = Inr pg
              \<and> (\<forall>g \<in> set (case pg_measuregrps pg of None \<Rightarrow> [] | Some gs \<Rightarrow> gs).
                    group_staged P hr g s')"
      if "length (ps_calls s) \<le> k \<and> k < length (ps_calls s')" for k
    proof -
      from that c have "k = length (ps_calls s)"
        by simp
      with pg(1,5) show ?thesis
        by blast
    qed
    with c pg(2,3,4) show ?thesis
      by simp
  next
    case (Inr s1)
    with Suc.prems have r: "paginate_within n P api sd ed hr s1 = Some (None, s')"
      by simp
    note ih = Suc.IH [OF r]
    from page_step_Inr [OF Inr] have c: "ps_calls s1 = ps_calls s @ [(sd, ed, ps_offset s)]"
      by simp
    from page_step_staged [where api = api and s = s and P = P and sd = sd and ed = ed and hr = hr
            and s' = s1] Inr
    obtain pg where pg: "api (length (ps_calls s)) = Inr pg"
      "set (ps_measurements s) \<subseteq> set (ps_measurements s1)"
      "set (ps_heart_rates s) \<subseteq> set (ps_heart_rates s1)"
      "\<not> hr \<longrightarrow> ps_heart_rates s1 = ps_heart_rates s"
      "\<forall>g \<in> set (case pg_measuregrps pg of None \<Rightarrow> [] | Some gs \<Rightarrow> gs). group_staged P hr g s1"
      by blast
    have first: "\<forall>g \<in> set (case pg_measuregrps pg of None \<Rightarrow> [] | Some gs \<Rightarrow> gs). group_staged P hr g s'"
    proof
      fix x
      assume "x \<in> set (case pg_measuregrps pg of None \<Rightarrow> [] | Some gs \<Rightarrow> gs)"
      with pg(5) have "group_staged P hr x s1"
        by blast
      then show "group_staged P hr x s'"
        using ih by (blast intro: group_staged_mono)
    qed
    have pages: "\<exists>pg. api k = Inr pg
              \<and> (\<forall>g \<in> set (case pg_measuregrps pg of None \<Rightarrow> [] | Some gs \<Rightarrow> gs).
                    group_staged P hr g s')"
      if k: "length (ps_calls s) \<le> k \<and> k < length (ps_calls s')" for k
    proof (cases "k = length (ps_calls s)")
      case True
      with pg(1) first show ?thesis
        by blast
    next
      case False
      with k c have "length (ps_calls s1) \<le> k \<and> k < length (ps_calls s')"
        by simp
      with ih show ?thesis
        by blast
    qed
    have 0: "length (ps_calls s) < length (ps_calls s')"
      using ih c by simp
    have 1: "set (ps_measurements s) \<subseteq> set (ps_measurements s')"
      using pg(2) ih by blast
    have 2: "set (ps_heart_rates s) \<subseteq> set (ps_heart_rates s')"
      using pg(3) ih by blast
    have 3: "\<not> hr \<longrightarrow> ps_heart_rates s' = ps_heart_rates s"
      using pg(4) ih by simp
    from 0 1 2 3 pages show ?thesis
      by simp
  qed
qed

lemma paginate_staged:
  assumes "paginate P api sd ed hr initial_pstate = Some (None, s)"
  shows "0 < length (ps_calls s)
     \<and> (\<not> hr \<longrightarrow> ps_heart_rates s = [])
     \<and> (\<forall>k < length (ps_calls s).
           \<exists>pg. api k = Inr pg
              \<and> (\<forall>g \<in> set (case pg_measuregrps pg of None \<Rightarrow> [] | Some gs \<Rightarrow> gs).
                    group_staged P hr g s))"
proof -
  from paginate_paginate_within [OF assms] obtain n where
    "paginate_within n P api sd ed hr initial_pstate = Some (None, s)" ..
  from paginate_within_staged [OF this] show ?thesis
    by (simp add: initial_pstate_def)
qed

lemma foldl_upsert_member:
  "r \<in> set xs \<Longrightarrow>
     \<exists>r' \<in> set xs. k r' = k r \<and> foldl (\<lambda>tbl a. tbl(k a \<mapsto> a)) tbl0 xs (k r) = Some r'"
  by (induction xs rule: rev_induct) auto

lemma foldl_upsert_only:
  "r \<in> set xs \<Longrightarrow> \<forall>r' \<in> set xs. k r' = k r \<longrightarrow> r' = r \<Longrightarrow>
     foldl (\<lambda>tbl a. tbl(k a \<mapsto> a)) tbl0 xs (k r) = Some r"
  using foldl_upsert_member [of r xs k tbl0] by auto

lemma heart_rate_name: "get_measure_type_name 11 = ''heart_rate''"
  by (simp add: get_measure_type_name_def measure_map_def)

end
